theory Spec2Isabelle
  imports Main
begin

section \<open>Python values\<close>

text \<open>
  The incident reports and the step parameters are Python dictionaries holding arbitrary
  JSON-like values. They are modelled by the datatype below (floating point numbers are
  left out). A dictionary is an association list with its keys in insertion order.
\<close>

datatype pyval =
    PNone
  | PBool bool
  | PInt int
  | PStr string
  | PList "pyval list"
  | PDict "(string \<times> pyval) list"

type_synonym pydict = "(string \<times> pyval) list"

datatype py_error = ValueError | AttributeError | TypeError | SqliteError

text \<open>\<^verbatim>\<open>d.get(k, default)\<close> on a dictionary.\<close>

definition dict_get :: "pydict \<Rightarrow> string \<Rightarrow> pyval \<Rightarrow> pyval" where
  "dict_get d k dflt = (case map_of d k of None \<Rightarrow> dflt | Some v \<Rightarrow> v)"

text \<open>\<^verbatim>\<open>v.get(k, default)\<close> on an arbitrary value: only a dictionary has the method.\<close>

definition val_get :: "pyval \<Rightarrow> string \<Rightarrow> pyval \<Rightarrow> py_error + pyval" where
  "val_get v k dflt = (case v of PDict d \<Rightarrow> Inr (dict_get d k dflt) | _ \<Rightarrow> Inl AttributeError)"

text \<open>Truth value of a Python object, as tested by \<^verbatim>\<open>if x:\<close>.\<close>

fun truthy :: "pyval \<Rightarrow> bool" where
  "truthy PNone = False"
| "truthy (PBool b) = b"
| "truthy (PInt i) = (i \<noteq> 0)"
| "truthy (PStr s) = (s \<noteq> [])"
| "truthy (PList xs) = (xs \<noteq> [])"
| "truthy (PDict d) = (d \<noteq> [])"

text \<open>\<^verbatim>\<open>len(x)\<close>: defined on strings, lists and dictionaries, a TypeError elsewhere.\<close>

fun py_len :: "pyval \<Rightarrow> py_error + nat" where
  "py_len (PStr s) = Inr (length s)"
| "py_len (PList xs) = Inr (length xs)"
| "py_len (PDict d) = Inr (length d)"
| "py_len _ = Inl TypeError"

section \<open>Workflow steps (incident\_workflows.py)\<close>

datatype WorkflowStatus = PENDING | IN_PROGRESS | COMPLETED | FAILED | SKIPPED

text \<open>
  The dataclass \<^verbatim>\<open>WorkflowStep\<close>. The field \<^verbatim>\<open>prerequisites\<close> defaults to
  \<^verbatim>\<open>None\<close>, hence the option. Points in time are natural numbers.
\<close>

record WorkflowStep =
  step_id :: string
  name :: string
  description :: string
  action_type :: string
  parameters :: pydict
  prerequisites :: "string list option"
  timeout_minutes :: int
  critical :: bool
  status :: WorkflowStatus
  execution_time :: "nat option"
  result :: "string option"

text \<open>The constructor call with the dataclass defaults for the last three fields.\<close>

definition new_step ::
  "string \<Rightarrow> string \<Rightarrow> string \<Rightarrow> string \<Rightarrow> pydict \<Rightarrow> string list option \<Rightarrow> int \<Rightarrow> bool
     \<Rightarrow> WorkflowStep" where
  "new_step sid nm descr atype params prereqs tmo crit =
     \<lparr> step_id = sid, name = nm, description = descr, action_type = atype,
       parameters = params, prerequisites = prereqs, timeout_minutes = tmo,
       critical = crit, status = PENDING, execution_time = None, result = None \<rparr>"

section \<open>The workflow engine\<close>

text \<open>
  The state of a \<^verbatim>\<open>WorkflowEngine\<close> object: the dictionary of active workflows and the
  dictionary of workflow generators, both keyed by strings. A generator either raises or
  returns a list of steps.
\<close>

record WorkflowEngine =
  active_workflows :: "string \<rightharpoonup> WorkflowStep list"
  workflow_generators :: "string \<rightharpoonup> (pydict \<Rightarrow> py_error + WorkflowStep list)"

text \<open>\<^verbatim>\<open>next((s for s in workflow if s.step_id == sid), None)\<close>\<close>

definition find_step :: "WorkflowStep list \<Rightarrow> string \<Rightarrow> WorkflowStep option" where
  "find_step workflow sid = find (\<lambda>s. step_id s = sid) workflow"

subsection \<open>get\_next\_steps\<close>

text \<open>
  The inner loop over \<^verbatim>\<open>step.prerequisites\<close>: it leaves with \<^verbatim>\<open>prereq_met = False\<close>
  at the first prerequisite that is not found or not completed.
\<close>

fun prereq_met :: "WorkflowStep list \<Rightarrow> string list \<Rightarrow> bool" where
  "prereq_met workflow [] = True"
| "prereq_met workflow (prereq_id # rest) =
     (case find_step workflow prereq_id of
        None \<Rightarrow> False
      | Some prereq_step \<Rightarrow>
          if status prereq_step \<noteq> COMPLETED then False else prereq_met workflow rest)"

text \<open>
  The outer loop over the workflow, with the list \<^verbatim>\<open>next_steps\<close> as accumulator.
  \<^verbatim>\<open>if step.prerequisites:\<close> is false for \<^verbatim>\<open>None\<close> and for the empty list.
\<close>

fun next_steps_loop ::
  "WorkflowStep list \<Rightarrow> WorkflowStep list \<Rightarrow> WorkflowStep list \<Rightarrow> WorkflowStep list" where
  "next_steps_loop workflow [] next_steps = next_steps"
| "next_steps_loop workflow (step # rest) next_steps =
     (if status step \<noteq> PENDING then next_steps_loop workflow rest next_steps
      else
        (case prerequisites step of
           None \<Rightarrow> next_steps_loop workflow rest (next_steps @ [step])
         | Some ps \<Rightarrow>
             if ps \<noteq> [] \<and> \<not> prereq_met workflow ps
             then next_steps_loop workflow rest next_steps
             else next_steps_loop workflow rest (next_steps @ [step])))"

definition get_next_steps :: "WorkflowEngine \<Rightarrow> string \<Rightarrow> WorkflowStep list" where
  "get_next_steps engine incident_id =
     (case active_workflows engine incident_id of
        None \<Rightarrow> []
      | Some workflow \<Rightarrow> next_steps_loop workflow workflow [])"

subsection \<open>update\_step\_status\<close>

text \<open>
  The step object found by the search is mutated in place; in the list model the first
  step with the given id is replaced. \<^verbatim>\<open>now\<close> is the reading of the clock.
\<close>

fun mutate_first :: "('a \<Rightarrow> bool) \<Rightarrow> ('a \<Rightarrow> 'a) \<Rightarrow> 'a list \<Rightarrow> 'a list" where
  "mutate_first P f [] = []"
| "mutate_first P f (x # xs) = (if P x then f x # xs else x # mutate_first P f xs)"

definition set_step_status ::
  "WorkflowStatus \<Rightarrow> string option \<Rightarrow> nat \<Rightarrow> WorkflowStep \<Rightarrow> WorkflowStep" where
  "set_step_status new_status res now step =
     step\<lparr> status := new_status,
           result := res,
           execution_time :=
             (if new_status \<in> set [COMPLETED, FAILED] then Some now else execution_time step) \<rparr>"

definition update_step_status ::
  "WorkflowEngine \<Rightarrow> string \<Rightarrow> string \<Rightarrow> WorkflowStatus \<Rightarrow> string option \<Rightarrow> nat
     \<Rightarrow> bool \<times> WorkflowEngine" where
  "update_step_status engine incident_id sid new_status res now =
     (case active_workflows engine incident_id of
        None \<Rightarrow> (False, engine)
      | Some workflow \<Rightarrow>
          (case find_step workflow sid of
             None \<Rightarrow> (False, engine)
           | Some step \<Rightarrow>
               (True,
                engine\<lparr> active_workflows := (active_workflows engine)
                  (incident_id \<mapsto>
                     mutate_first (\<lambda>s. step_id s = sid)
                       (set_step_status new_status res now) workflow) \<rparr>)))"

subsection \<open>Workflow generators\<close>

text \<open>
  \<^verbatim>\<open>incident_data.get(key, {})\<close> followed by a \<^verbatim>\<open>.get\<close> on the result: the
  second call raises AttributeError unless the value stored under the key is a dictionary.
\<close>

definition get_subdict :: "pydict \<Rightarrow> string \<Rightarrow> py_error + pydict" where
  "get_subdict incident_data key =
     (case dict_get incident_data key (PDict []) of
        PDict d \<Rightarrow> Inr d
      | _ \<Rightarrow> Inl AttributeError)"

definition RansomwareWorkflow_generate_workflow :: "pydict \<Rightarrow> py_error + WorkflowStep list" where
  "RansomwareWorkflow_generate_workflow incident_data =
    (let affected_systems = dict_get incident_data ''affected_systems'' (PList []) in
     case get_subdict incident_data ''indicators'' of
       Inl e \<Rightarrow> Inl e
     | Inr indicators \<Rightarrow>
        (let c2_ips = dict_get indicators ''c2_ips'' (PList []) in
         Inr ([
           new_step ''RANSOM_001'' ''Emergency Network Isolation''
             ''Immediately isolate all affected systems from network''
             ''isolate_systems''
             [(''systems'', affected_systems),
              (''method'', PStr ''emergency_isolation''),
              (''preserve_evidence'', PBool True)]
             None 2 True,
           new_step ''RANSOM_002'' ''Block C2 Communications''
             ''Block command and control server IPs''
             ''block_ips''
             [(''ip_list'', c2_ips),
              (''rule_type'', PStr ''emergency_block''),
              (''apply_to_all_firewalls'', PBool True)]
             None 5 True,
           new_step ''RANSOM_003'' ''Disable File Shares''
             ''Temporarily disable network file shares to prevent spread''
             ''disable_services''
             [(''services'', PList [PStr ''SMB'', PStr ''NFS'', PStr ''FTP'']),
              (''scope'', PStr ''organization_wide'')]
             None 5 True
         ] @ [
           new_step ''RANSOM_004'' ''Collect Memory Dumps''
             ''Collect memory dumps from infected systems''
             ''collect_evidence''
             [(''systems'', affected_systems),
              (''evidence_type'', PStr ''memory_dump''),
              (''encryption'', PBool True)]
             (Some [''RANSOM_001'']) 30 False,
           new_step ''RANSOM_005'' ''Identify Ransomware Variant''
             ''Analyze samples to identify ransomware family''
             ''malware_analysis''
             [(''sample_locations'', PStr ''/evidence/samples/''),
              (''analysis_type'', PStr ''automated''),
              (''sandbox_analysis'', PBool True)]
             (Some [''RANSOM_004'']) 20 False,
           new_step ''RANSOM_006'' ''Check for Decryption Tools''
             ''Search for available decryption tools''
             ''decryption_research''
             [(''ransomware_family'', PStr ''TBD''),
              (''check_nomoreransom'', PBool True),
              (''check_vendor_tools'', PBool True)]
             (Some [''RANSOM_005'']) 15 False
         ] @ [
           new_step ''RANSOM_007'' ''Assess Backup Integrity''
             ''Verify backup systems are not compromised''
             ''backup_verification''
             [(''backup_systems'', PList [PStr ''primary_backup'', PStr ''offsite_backup'']),
              (''integrity_check'', PBool True),
              (''malware_scan'', PBool True)]
             None 45 False,
           new_step ''RANSOM_008'' ''Begin System Restoration''
             ''Start restoring systems from clean backups''
             ''system_restore''
             [(''restore_priority'', PList [PStr ''critical_servers'', PStr ''user_workstations'']),
              (''verification_required'', PBool True)]
             (Some [''RANSOM_007'']) 120 False
         ])))"

definition DataExfiltrationWorkflow_generate_workflow ::
  "pydict \<Rightarrow> py_error + WorkflowStep list" where
  "DataExfiltrationWorkflow_generate_workflow incident_data =
    (let affected_systems = dict_get incident_data ''affected_systems'' (PList []) in
     case get_subdict incident_data ''indicators'' of
       Inl e \<Rightarrow> Inl e
     | Inr indicators \<Rightarrow>
        (let external_ips = dict_get indicators ''external_ips'' (PList []);
             user_account = dict_get indicators ''user_account'' PNone;
             steps = [
               new_step ''EXFIL_001'' ''Block External Destinations''
                 ''Block communication to external exfiltration destinations''
                 ''block_ips''
                 [(''ip_list'', external_ips),
                  (''rule_type'', PStr ''exfiltration_block''),
                  (''log_attempts'', PBool True)]
                 None 3 True,
               new_step ''EXFIL_002'' ''Isolate Source Systems''
                 ''Isolate systems involved in data exfiltration''
                 ''isolate_systems''
                 [(''systems'', affected_systems),
                  (''method'', PStr ''network_isolation''),
                  (''maintain_monitoring'', PBool True)]
                 None 5 True
             ] @ (if truthy user_account then [
               new_step ''EXFIL_003'' ''Secure Compromised Account''
                 ''Disable compromised user account and reset credentials''
                 ''account_security''
                 [(''account'', user_account),
                  (''actions'', PList [PStr ''disable'', PStr ''reset_password'', PStr ''revoke_tokens'']),
                  (''force_logout'', PBool True)]
                 None 5 True
             ] else []) @ [
               new_step ''EXFIL_004'' ''Analyze Data Access Patterns''
                 ''Review file access logs to determine scope of compromise''
                 ''log_analysis''
                 [(''log_sources'', PList [PStr ''file_server'', PStr ''database'', PStr ''sharepoint'']),
                  (''time_range_hours'', PInt 48),
                  (''focus_user'', user_account)]
                 None 30 False,
               new_step ''EXFIL_005'' ''Identify Exfiltrated Data''
                 ''Determine what data was potentially exfiltrated''
                 ''data_classification''
                 [(''source_directories'', dict_get indicators ''source_directories'' (PList [])),
                  (''classification_scan'', PBool True),
                  (''privacy_assessment'', PBool True)]
                 (Some [''EXFIL_004'']) 45 False,
               new_step ''EXFIL_006'' ''Network Traffic Analysis''
                 ''Analyze network traffic for exfiltration patterns''
                 ''network_analysis''
                 [(''capture_period_hours'', PInt 24),
                  (''analyze_protocols'', PList [PStr ''HTTPS'', PStr ''FTP'', PStr ''SFTP'', PStr ''DNS'']),
                  (''external_destinations'', external_ips)]
                 None 60 False
             ]
         in
         case get_subdict incident_data ''impact_assessment'' of
           Inl e \<Rightarrow> Inl e
         | Inr impact_assessment \<Rightarrow>
            (let compliance_reqs = dict_get impact_assessment ''compliance_implications'' (PList []) in
             Inr (steps @ (if truthy compliance_reqs then [
               new_step ''EXFIL_007'' ''Compliance Notification''
                 ''Notify relevant authorities per compliance requirements''
                 ''compliance_notification''
                 [(''regulations'', compliance_reqs),
                  (''notification_window_hours'', PInt 72),
                  (''include_data_assessment'', PBool True)]
                 (Some [''EXFIL_005'']) 30 True
             ] else [])))))"

definition CredentialCompromiseWorkflow_generate_workflow ::
  "pydict \<Rightarrow> py_error + WorkflowStep list" where
  "CredentialCompromiseWorkflow_generate_workflow incident_data =
    (case get_subdict incident_data ''indicators'' of
       Inl e \<Rightarrow> Inl e
     | Inr indicators \<Rightarrow>
        (let compromised_accounts = dict_get indicators ''compromised_accounts'' (PList []);
             source_ip = dict_get indicators ''source_ip'' PNone;
             affected_systems = dict_get incident_data ''affected_systems'' (PList [])
         in
         case py_len compromised_accounts of
           Inl e \<Rightarrow> Inl e
         | Inr n \<Rightarrow>
           Inr ([
             new_step ''CRED_001'' ''Disable Compromised Accounts''
               ''Immediately disable all compromised user accounts''
               ''disable_accounts''
               [(''accounts'', compromised_accounts),
                (''revoke_sessions'', PBool True),
                (''revoke_tokens'', PBool True)]
               None 5 True,
             new_step ''CRED_002'' ''Block Attack Source''
               ''Block the source IP of the credential attack''
               ''block_ips''
               [(''ip_list'', PList (if truthy source_ip then [source_ip] else [])),
                (''rule_type'', PStr ''credential_attack_block''),
                (''duration_hours'', PInt 24)]
               None 3 True
           ] @ [
             new_step ''CRED_003'' ''Assess Privilege Escalation''
               ''Check for unauthorized privilege escalations''
               ''privilege_audit''
               [(''accounts'', compromised_accounts),
                (''check_group_memberships'', PBool True),
                (''check_permissions'', PBool True),
                (''compare_baseline'', PBool True)]
               None 20 False,
             new_step ''CRED_004'' ''Review Authentication Logs''
               ''Analyze authentication logs for attack patterns''
               ''log_analysis''
               [(''log_sources'', PList [PStr ''domain_controller'', PStr ''vpn'', PStr ''web_applications'']),
                (''time_range_hours'', PInt 72),
                (''failed_login_threshold'', PInt 10)]
               None 30 False,
             new_step ''CRED_005'' ''Lateral Movement Detection''
               ''Check for signs of lateral movement''
               ''lateral_movement_analysis''
               [(''source_systems'', affected_systems),
                (''check_rdp_sessions'', PBool True),
                (''check_smb_access'', PBool True),
                (''check_powershell_activity'', PBool True)]
               (Some [''CRED_004'']) 45 False
           ] @ [
             new_step ''CRED_006'' ''Force Password Reset''
               ''Force password reset for all potentially affected accounts''
               ''password_reset''
               [(''scope'', PStr (if n > 5 then ''organization_wide'' else ''targeted'')),
                (''require_mfa_setup'', PBool True),
                (''minimum_complexity'', PStr ''high'')]
               (Some [''CRED_003'']) 60 False,
             new_step ''CRED_007'' ''Rebuild Compromised Systems''
               ''Rebuild systems with administrative access''
               ''system_rebuild''
               [(''systems'', affected_systems),
                (''backup_data'', PBool True),
                (''security_hardening'', PBool True)]
               (Some [''CRED_005'']) 180 False
           ])))"

definition DDoSWorkflow_generate_workflow :: "pydict \<Rightarrow> py_error + WorkflowStep list" where
  "DDoSWorkflow_generate_workflow incident_data =
    (case get_subdict incident_data ''indicators'' of
       Inl e \<Rightarrow> Inl e
     | Inr indicators \<Rightarrow>
        (let attack_sources = dict_get indicators ''attack_sources'' (PList []);
             affected_systems = dict_get incident_data ''affected_systems'' (PList []);
             attack_types = dict_get indicators ''attack_types'' (PList [])
         in
         Inr ([
           new_step ''DDOS_001'' ''Activate DDoS Protection''
             ''Enable DDoS protection services''
             ''ddos_protection''
             [(''protection_level'', PStr ''maximum''),
              (''scrubbing_centers'', PBool True),
              (''rate_limiting'', PBool True)]
             None 5 True,
           new_step ''DDOS_002'' ''Block Attack Sources''
             ''Block identified attack source networks''
             ''block_networks''
             [(''networks'', attack_sources),
              (''rule_type'', PStr ''ddos_block''),
              (''upstream_filtering'', PBool True)]
             None 10 True
         ] @ [
           new_step ''DDOS_003'' ''Analyze Attack Patterns''
             ''Analyze traffic patterns to identify attack vectors''
             ''traffic_analysis''
             [(''attack_types'', attack_types),
              (''pattern_recognition'', PBool True),
              (''geolocation_analysis'', PBool True)]
             None 15 False,
           new_step ''DDOS_004'' ''Implement Filtering Rules''
             ''Create specific filtering rules based on attack patterns''
             ''traffic_filtering''
             [(''filter_types'', PList [PStr ''packet_size'', PStr ''request_rate'', PStr ''geographic'']),
              (''whitelist_known_good'', PBool True),
              (''adaptive_filtering'', PBool True)]
             (Some [''DDOS_003'']) 20 False
         ] @ [
           new_step ''DDOS_005'' ''Scale Infrastructure''
             ''Scale up infrastructure to handle attack volume''
             ''infrastructure_scaling''
             [(''auto_scaling'', PBool True),
              (''load_balancing'', PBool True),
              (''cdn_activation'', PBool True)]
             None 30 False,
           new_step ''DDOS_006'' ''Monitor Service Availability''
             ''Continuously monitor service availability and performance''
             ''availability_monitoring''
             [(''check_interval_seconds'', PInt 30),
              (''performance_thresholds'',
                 PDict [(''response_time'', PInt 2000), (''success_rate'', PInt 95)]),
              (''alert_degradation'', PBool True)]
             None 60 False
         ])))"

definition InsiderThreatWorkflow_generate_workflow ::
  "pydict \<Rightarrow> py_error + WorkflowStep list" where
  "InsiderThreatWorkflow_generate_workflow incident_data =
    (case get_subdict incident_data ''indicators'' of
       Inl e \<Rightarrow> Inl e
     | Inr indicators \<Rightarrow>
        (let employee_id = dict_get indicators ''employee_id'' PNone;
             accessed_systems = dict_get indicators ''accessed_systems'' (PList []);
             data_accessed = dict_get indicators ''data_accessed'' (PList [])
         in
         Inr ([
           new_step ''INSIDER_001'' ''Enable Enhanced Monitoring''
             ''Enable detailed monitoring of user activities''
             ''user_monitoring''
             [(''employee_id'', employee_id),
              (''monitor_file_access'', PBool True),
              (''monitor_network_activity'', PBool True),
              (''monitor_email'', PBool True),
              (''discrete_mode'', PBool True)]
             None 10 True,
           new_step ''INSIDER_002'' ''Review Access Permissions''
             (''Review user'' @ [CHR 0x27] @ ''s current access permissions'')
             ''permission_audit''
             [(''employee_id'', employee_id),
              (''systems'', accessed_systems),
              (''check_job_role_alignment'', PBool True),
              (''historical_access_review'', PBool True)]
             None 20 False
         ] @ [
           new_step ''INSIDER_003'' ''Analyze User Behavior''
             ''Analyze user behavior patterns for anomalies''
             ''behavior_analysis''
             [(''employee_id'', employee_id),
              (''time_range_days'', PInt 30),
              (''compare_peer_group'', PBool True),
              (''anomaly_detection'', PBool True)]
             None 45 False,
           new_step ''INSIDER_004'' ''Data Loss Assessment''
             ''Assess potential data loss or misuse''
             ''data_loss_assessment''
             [(''data_types'', data_accessed),
              (''export_detection'', PBool True),
              (''external_communication_check'', PBool True)]
             (Some [''INSIDER_003'']) 30 False
         ] @ [
           new_step ''INSIDER_005'' ''HR Coordination''
             ''Coordinate with HR for personnel action''
             ''hr_coordination''
             [(''employee_id'', employee_id),
              (''recommended_actions'', PList [PStr ''investigation'', PStr ''access_review'']),
              (''evidence_package'', PBool True)]
             (Some [''INSIDER_004'']) 60 False,
           new_step ''INSIDER_006'' ''Legal Review''
             ''Initiate legal review of incident''
             ''legal_review''
             [(''incident_type'', PStr ''insider_threat''),
              (''evidence_preservation'', PBool True),
              (''potential_violations'',
                 PList [PStr ''data_access_policy'', PStr ''confidentiality_agreement''])]
             (Some [''INSIDER_005'']) 120 False
         ])))"

subsection \<open>Creating a workflow\<close>

text \<open>The generator table set up by \<^verbatim>\<open>WorkflowEngine.__init__\<close>.\<close>

definition builtin_generators :: "string \<rightharpoonup> (pydict \<Rightarrow> py_error + WorkflowStep list)" where
  "builtin_generators = map_of [
     (''malware_outbreak'', RansomwareWorkflow_generate_workflow),
     (''data_exfiltration'', DataExfiltrationWorkflow_generate_workflow),
     (''credential_compromise'', CredentialCompromiseWorkflow_generate_workflow),
     (''ddos_attack'', DDoSWorkflow_generate_workflow),
     (''insider_threat'', InsiderThreatWorkflow_generate_workflow)]"

definition WorkflowEngine_init :: WorkflowEngine where
  "WorkflowEngine_init =
     \<lparr> active_workflows = Map.empty, workflow_generators = builtin_generators \<rparr>"

text \<open>
  \<^verbatim>\<open>create_workflow\<close> raises ValueError for an incident type without a generator;
  an exception of the generator passes through. Otherwise the generated steps are stored
  under the incident id and returned.
\<close>

definition create_workflow ::
  "WorkflowEngine \<Rightarrow> string \<Rightarrow> string \<Rightarrow> pydict
     \<Rightarrow> py_error + (WorkflowStep list \<times> WorkflowEngine)" where
  "create_workflow engine incident_id incident_type incident_data =
     (case workflow_generators engine incident_type of
        None \<Rightarrow> Inl ValueError
      | Some generator \<Rightarrow>
          (case generator incident_data of
             Inl e \<Rightarrow> Inl e
           | Inr workflow_steps \<Rightarrow>
               Inr (workflow_steps,
                    engine\<lparr> active_workflows :=
                      (active_workflows engine)(incident_id \<mapsto> workflow_steps) \<rparr>)))"

section \<open>Auxiliary notions for the properties\<close>

text \<open>The prerequisites a step lists: none for \<^verbatim>\<open>None\<close>.\<close>

definition prereq_list :: "WorkflowStep \<Rightarrow> string list" where
  "prereq_list s = (case prerequisites s of None \<Rightarrow> [] | Some ps \<Rightarrow> ps)"

text \<open>A prerequisite id is completed when it resolves to a step whose status is completed.\<close>

definition prereq_completed :: "WorkflowStep list \<Rightarrow> string \<Rightarrow> bool" where
  "prereq_completed workflow p =
     (case find_step workflow p of None \<Rightarrow> False | Some t \<Rightarrow> status t = COMPLETED)"

definition ready :: "WorkflowStep list \<Rightarrow> WorkflowStep \<Rightarrow> bool" where
  "ready workflow s \<longleftrightarrow> status s = PENDING \<and> list_all (prereq_completed workflow) (prereq_list s)"

section \<open>Test data\<close>

text \<open>The ransomware report and the incident id used by \<^verbatim>\<open>main()\<close> of incident\_workflows.py.\<close>

definition ransomware_data :: pydict where
  "ransomware_data =
     [(''affected_systems'', PList [PStr ''10.0.1.150'', PStr ''10.0.1.175'']),
      (''indicators'', PDict [
         (''c2_ips'', PList [PStr ''198.51.100.25'', PStr ''203.0.113.50'']),
         (''encrypted_file_extensions'', PList [PStr ''.locked'', PStr ''.encrypted''])])]"

definition demo_workflow :: "WorkflowStep list" where
  "demo_workflow =
     (case RansomwareWorkflow_generate_workflow ransomware_data of
        Inr w \<Rightarrow> w
      | Inl e \<Rightarrow> [])"

definition demo_engine :: WorkflowEngine where
  "demo_engine = WorkflowEngine_init\<lparr> active_workflows := [''INC-001'' \<mapsto> demo_workflow] \<rparr>"

text \<open>The status the engine reports for a step of an incident's workflow.\<close>

definition status_of :: "WorkflowEngine \<Rightarrow> string \<Rightarrow> string \<Rightarrow> WorkflowStatus option" where
  "status_of engine incident_id sid =
     (case active_workflows engine incident_id of
        None \<Rightarrow> None
      | Some workflow \<Rightarrow> map_option status (find_step workflow sid))"

text \<open>Engine states reached from the test workflow by calls of \<^verbatim>\<open>update_step_status\<close>.\<close>

definition demo_completed :: WorkflowEngine where
  "demo_completed =
     snd (update_step_status demo_engine ''INC-001'' ''RANSOM_001'' COMPLETED (Some ''Success'') 1)"

definition demo_reset :: WorkflowEngine where
  "demo_reset = snd (update_step_status demo_completed ''INC-001'' ''RANSOM_001'' PENDING None 2)"

definition demo_failed :: WorkflowEngine where
  "demo_failed =
     snd (update_step_status demo_engine ''INC-001'' ''RANSOM_001'' FAILED (Some ''timeout'') 1)"

text \<open>The workflow stored for an incident, empty when there is none.\<close>

definition workflow_of :: "WorkflowEngine \<Rightarrow> string \<Rightarrow> WorkflowStep list" where
  "workflow_of engine incident_id =
     (case active_workflows engine incident_id of None \<Rightarrow> [] | Some workflow \<Rightarrow> workflow)"

subsection \<open>The prerequisite graph\<close>

text \<open>
  The list order of a workflow is a topological order of its prerequisite graph when every
  prerequisite of a step is the id of a step further to the front. \<^verbatim>\<open>seen\<close> holds the ids
  passed so far.
\<close>

fun topo_from :: "string list \<Rightarrow> WorkflowStep list \<Rightarrow> bool" where
  "topo_from seen [] = True"
| "topo_from seen (s # ss) =
     (list_all (\<lambda>p. p \<in> set seen) (prereq_list s) \<and> topo_from (seen @ [step_id s]) ss)"

definition topologically_ordered :: "WorkflowStep list \<Rightarrow> bool" where
  "topologically_ordered workflow = topo_from [] workflow"

text \<open>The edges of the prerequisite graph: from a step id to each prerequisite id.\<close>

definition prereq_rel :: "WorkflowStep list \<Rightarrow> (string \<times> string) set" where
  "prereq_rel workflow = {(step_id s, p) | s p. s \<in> set workflow \<and> p \<in> set (prereq_list s)}"

text \<open>The position of the first occurrence of an id in a list of ids.\<close>

definition pos :: "string list \<Rightarrow> string \<Rightarrow> nat" where
  "pos ids p = length (takeWhile (\<lambda>x. x \<noteq> p) ids)"

text \<open>
  A step set with a cycle (each step is the prerequisite of the other), and an engine in
  whose generator table a generator for it has been registered.
\<close>

definition cyclic_steps :: "WorkflowStep list" where
  "cyclic_steps =
     [new_step ''A'' ''first'' ''waits for B'' ''collect_evidence'' [] (Some [''B'']) 10 False,
      new_step ''B'' ''second'' ''waits for A'' ''collect_evidence'' [] (Some [''A'']) 10 False]"

definition cyclic_engine :: WorkflowEngine where
  "cyclic_engine =
     WorkflowEngine_init\<lparr> workflow_generators :=
       builtin_generators(''cyclic'' \<mapsto> (\<lambda>incident_data. Inr cyclic_steps)) \<rparr>"

section \<open>The response engine (incident\_response\_system.py)\<close>

datatype IncidentSeverity = LOW | MEDIUM | HIGH | CRITICAL

datatype IncidentType =
    RANSOMWARE
  | DATA_EXFILTRATION
  | CREDENTIAL_COMPROMISE
  | INSIDER_THREAT
  | DDOS_ATTACK
  | SUPPLY_CHAIN

datatype ResponseAction =
    ISOLATE_SYSTEM
  | BLOCK_IP
  | COLLECT_EVIDENCE
  | DISABLE_ACCOUNT
  | QUARANTINE_FILE
  | NOTIFY_STAKEHOLDERS

text \<open>The \<^verbatim>\<open>.value\<close> of the enumeration members.\<close>

fun IncidentSeverity_value :: "IncidentSeverity \<Rightarrow> string" where
  "IncidentSeverity_value LOW = ''low''"
| "IncidentSeverity_value MEDIUM = ''medium''"
| "IncidentSeverity_value HIGH = ''high''"
| "IncidentSeverity_value CRITICAL = ''critical''"

fun IncidentType_value :: "IncidentType \<Rightarrow> string" where
  "IncidentType_value RANSOMWARE = ''malware_outbreak''"
| "IncidentType_value DATA_EXFILTRATION = ''data_exfiltration''"
| "IncidentType_value CREDENTIAL_COMPROMISE = ''credential_compromise''"
| "IncidentType_value INSIDER_THREAT = ''insider_threat''"
| "IncidentType_value DDOS_ATTACK = ''ddos_attack''"
| "IncidentType_value SUPPLY_CHAIN = ''supply_chain_compromise''"

fun ResponseAction_value :: "ResponseAction \<Rightarrow> string" where
  "ResponseAction_value ISOLATE_SYSTEM = ''isolate_system''"
| "ResponseAction_value BLOCK_IP = ''block_ip''"
| "ResponseAction_value COLLECT_EVIDENCE = ''collect_evidence''"
| "ResponseAction_value DISABLE_ACCOUNT = ''disable_account''"
| "ResponseAction_value QUARANTINE_FILE = ''quarantine_file''"
| "ResponseAction_value NOTIFY_STAKEHOLDERS = ''notify_stakeholders''"

text \<open>
  The dataclasses \<^verbatim>\<open>IncidentData\<close> and \<^verbatim>\<open>ResponseStep\<close>. Field names that are
  already taken by the workflow step carry a suffix. The fields filled from the raw report
  hold whatever value the report has.
\<close>

record IncidentData =
  incident_id_i :: string
  incident_type_i :: IncidentType
  severity_i :: IncidentSeverity
  detection_time_i :: nat
  affected_systems_i :: pyval
  indicators_i :: pyval
  description_i :: pyval
  status_i :: string

record ResponseStep =
  action :: ResponseAction
  target :: pyval
  parameters_r :: pydict
  status_r :: string
  execution_time_r :: "nat option"
  result_r :: "string option"

definition new_response_step :: "ResponseAction \<Rightarrow> pyval \<Rightarrow> pydict \<Rightarrow> ResponseStep" where
  "new_response_step a t params =
     \<lparr> action = a, target = t, parameters_r = params, status_r = ''pending'',
       execution_time_r = None, result_r = None \<rparr>"

subsection \<open>Python operations used by the plan generator\<close>

text \<open>Sequencing of computations that may raise.\<close>

definition then_err :: "py_error + 'a \<Rightarrow> ('a \<Rightarrow> py_error + 'b) \<Rightarrow> py_error + 'b" where
  "then_err m f = (case m of Inl e \<Rightarrow> Inl e | Inr x \<Rightarrow> f x)"

text \<open>A loop that builds one item per element and stops at the first exception.\<close>

fun for_each :: "('a \<Rightarrow> py_error + 'b) \<Rightarrow> 'a list \<Rightarrow> py_error + 'b list" where
  "for_each f [] = Inr []"
| "for_each f (x # xs) =
     (case f x of
        Inl e \<Rightarrow> Inl e
      | Inr y \<Rightarrow> (case for_each f xs of Inl e \<Rightarrow> Inl e | Inr ys \<Rightarrow> Inr (y # ys)))"

text \<open>
  \<^verbatim>\<open>for x in v\<close>: a list yields its elements, a string its characters, a dictionary its
  keys (which are distinct); other values are not iterable.
\<close>

fun py_iter :: "pyval \<Rightarrow> py_error + pyval list" where
  "py_iter (PList xs) = Inr xs"
| "py_iter (PStr s) = Inr (map (\<lambda>c. PStr [c]) s)"
| "py_iter (PDict d) = Inr (map (\<lambda>kv. PStr (fst kv)) d)"
| "py_iter _ = Inl TypeError"

text \<open>\<^verbatim>\<open>s.replace(a, b)\<close> for one-character strings \<^verbatim>\<open>a\<close> and \<^verbatim>\<open>b\<close>; only strings have it.\<close>

fun py_replace :: "pyval \<Rightarrow> char \<Rightarrow> char \<Rightarrow> py_error + string" where
  "py_replace (PStr s) a b = Inr (map (\<lambda>c. if c = a then b else c) s)"
| "py_replace _ a b = Inl AttributeError"

subsection \<open>\_generate\_response\_plan\<close>

definition isolate_steps :: "string \<Rightarrow> pyval \<Rightarrow> py_error + ResponseStep list" where
  "isolate_steps method systems =
     then_err (py_iter systems) (\<lambda>xs.
       Inr (map (\<lambda>system. new_response_step ISOLATE_SYSTEM system [(''method'', PStr method)]) xs))"

definition block_steps :: "string \<Rightarrow> pyval \<Rightarrow> py_error + ResponseStep list" where
  "block_steps prefix ips =
     then_err (py_iter ips) (for_each (\<lambda>ip.
       then_err (py_replace ip CHR ''.'' CHR ''_'') (\<lambda>r.
         Inr (new_response_step BLOCK_IP ip [(''rule_name'', PStr (prefix @ r))]))))"

text \<open>The branches of the \<^verbatim>\<open>if\<close>/\<^verbatim>\<open>elif\<close> chain, one per incident type with a plan.\<close>

definition ransomware_plan :: "IncidentData \<Rightarrow> py_error + ResponseStep list" where
  "ransomware_plan incident =
     then_err (isolate_steps ''edr_isolation'' (affected_systems_i incident)) (\<lambda>steps1.
     then_err (val_get (indicators_i incident) ''c2_ips'' (PList [])) (\<lambda>c2_ips.
     then_err (block_steps ''BLOCK_C2_'' c2_ips) (\<lambda>steps2.
     then_err (py_iter (affected_systems_i incident)) (\<lambda>xs.
       Inr (steps1 @ steps2 @
            map (\<lambda>system. new_response_step COLLECT_EVIDENCE system
                   [(''evidence_types'', PList [PStr ''memory_dump'', PStr ''disk_image''])])
                xs)))))"

definition exfiltration_plan :: "IncidentData \<Rightarrow> py_error + ResponseStep list" where
  "exfiltration_plan incident =
     then_err (val_get (indicators_i incident) ''external_ips'' (PList [])) (\<lambda>external_ips.
     then_err (block_steps ''BLOCK_EXFIL_'' external_ips) (\<lambda>steps1.
     then_err (isolate_steps ''network_isolation'' (affected_systems_i incident)) (\<lambda>steps2.
     then_err (val_get (indicators_i incident) ''user_account'' PNone) (\<lambda>user_account.
       Inr (steps1 @ steps2 @
            (if truthy user_account
             then [new_response_step DISABLE_ACCOUNT user_account
                     [(''domain'', PStr ''company.local'')]]
             else []))))))"

definition credential_plan :: "IncidentData \<Rightarrow> py_error + ResponseStep list" where
  "credential_plan incident =
     then_err (val_get (indicators_i incident) ''compromised_accounts'' (PList []))
       (\<lambda>compromised_accounts.
     then_err (py_iter compromised_accounts) (\<lambda>accounts.
     then_err (val_get (indicators_i incident) ''source_ip'' PNone) (\<lambda>source_ip.
     then_err
       (if truthy source_ip
        then then_err (py_replace source_ip CHR ''.'' CHR ''_'') (\<lambda>r.
               Inr [new_response_step BLOCK_IP source_ip
                      [(''rule_name'', PStr (''BLOCK_ATTACK_'' @ r))]])
        else Inr [])
       (\<lambda>steps2.
       Inr (map (\<lambda>account. new_response_step DISABLE_ACCOUNT account
                   [(''domain'', PStr ''company.local'')]) accounts
            @ steps2)))))"

definition ddos_plan :: "IncidentData \<Rightarrow> py_error + ResponseStep list" where
  "ddos_plan incident =
     then_err (val_get (indicators_i incident) ''attack_sources'' (PList [])) (\<lambda>attack_sources.
     then_err (py_iter attack_sources) (for_each (\<lambda>source.
       then_err (py_replace source CHR ''.'' CHR ''_'') (\<lambda>r.
         Inr (new_response_step BLOCK_IP source
                [(''rule_name'',
                  PStr (''BLOCK_DDOS_'' @ map (\<lambda>c. if c = CHR ''/'' then CHR ''_'' else c) r))])))))"

text \<open>The notification step appended last.\<close>

definition notify_step :: "IncidentData \<Rightarrow> ResponseStep" where
  "notify_step incident =
     new_response_step NOTIFY_STAKEHOLDERS (PStr ''security_team'')
       [(''incident_id'', PStr (incident_id_i incident)),
        (''severity'', PStr (IncidentSeverity_value (severity_i incident)))]"

definition generate_response_plan :: "IncidentData \<Rightarrow> py_error + ResponseStep list" where
  "generate_response_plan incident =
     then_err
       (if incident_type_i incident = RANSOMWARE then ransomware_plan incident
        else if incident_type_i incident = DATA_EXFILTRATION then exfiltration_plan incident
        else if incident_type_i incident = CREDENTIAL_COMPROMISE then credential_plan incident
        else if incident_type_i incident = DDOS_ATTACK then ddos_plan incident
        else Inr [])
       (\<lambda>steps. Inr (steps @ [notify_step incident]))"

subsection \<open>The table of response actions\<close>

text \<open>
  A row of the table \<^verbatim>\<open>response_actions\<close>. The column \<^verbatim>\<open>parameters\<close> holds the JSON text
  of the step's parameters and is represented by the dictionary itself; \<^verbatim>\<open>action_id\<close> is
  the AUTOINCREMENT primary key, for which the database keeps the largest key handed out.
\<close>

record response_action_row =
  action_id :: nat
  row_incident_id :: string
  row_action_type :: string
  row_target :: pyval
  row_parameters :: pydict
  row_status :: string
  row_execution_time :: "nat option"
  row_result :: "string option"
  created_at :: nat

record database =
  response_actions :: "response_action_row list"
  action_seq :: nat

text \<open>
  The values the database driver accepts for the column \<^verbatim>\<open>target\<close>, declared NOT NULL:
  strings, truth values and integers of 64 bits, but neither \<^verbatim>\<open>None\<close> nor a list or
  dictionary.
\<close>

fun sql_bindable :: "pyval \<Rightarrow> bool" where
  "sql_bindable (PStr s) = True"
| "sql_bindable (PInt i) = (- (2 ^ 63) \<le> i \<and> i < 2 ^ 63)"
| "sql_bindable (PBool b) = True"
| "sql_bindable _ = False"

text \<open>
  The key an AUTOINCREMENT column hands out: one more than the largest key ever used,
  which is the larger of the recorded sequence value and the keys present in the table.
\<close>

definition next_action_id :: "database \<Rightarrow> nat" where
  "next_action_id db = Suc (fold max (map action_id (response_actions db)) (action_seq db))"

text \<open>
  \<^verbatim>\<open>_store_response_action\<close>: a plain INSERT of one row; \<^verbatim>\<open>now\<close> is the database
  clock that fills \<^verbatim>\<open>created_at\<close>.
\<close>

definition store_response_action ::
  "database \<Rightarrow> string \<Rightarrow> ResponseStep \<Rightarrow> nat \<Rightarrow> py_error + database" where
  "store_response_action db incident_id step now =
     (if \<not> sql_bindable (target step) then Inl SqliteError
      else Inr \<lparr> response_actions = response_actions db @
                   [\<lparr> action_id = next_action_id db,
                      row_incident_id = incident_id,
                      row_action_type = ResponseAction_value (action step),
                      row_target = target step,
                      row_parameters = parameters_r step,
                      row_status = status_r step,
                      row_execution_time = execution_time_r step,
                      row_result = result_r step,
                      created_at = now \<rparr>],
                 action_seq = next_action_id db \<rparr>)"

text \<open>The table after \<^verbatim>\<open>_init_database\<close> on a new file.\<close>

definition empty_db :: database where
  "empty_db = \<lparr> response_actions = [], action_seq = 0 \<rparr>"

text \<open>The key under which the specification expects a step to be saved.\<close>

definition row_key :: "response_action_row \<Rightarrow> string \<times> string \<times> pyval" where
  "row_key r = (row_incident_id r, row_action_type r, row_target r)"

text \<open>Test data: the notification step of an incident, saved once and saved twice.\<close>

definition demo_notify :: ResponseStep where
  "demo_notify =
     new_response_step NOTIFY_STAKEHOLDERS (PStr ''security_team'')
       [(''incident_id'', PStr ''INC-001''), (''severity'', PStr ''high'')]"

definition saved_once :: database where
  "saved_once =
     (case store_response_action empty_db ''INC-001'' demo_notify 5 of
        Inr db \<Rightarrow> db | Inl e \<Rightarrow> empty_db)"

definition saved_twice :: database where
  "saved_twice =
     (case store_response_action saved_once ''INC-001'' demo_notify 5 of
        Inr db \<Rightarrow> db | Inl e \<Rightarrow> saved_once)"

definition demo_incident :: IncidentData where
  "demo_incident =
     \<lparr> incident_id_i = ''INC-20240101120000'', incident_type_i = RANSOMWARE, severity_i = HIGH,
       detection_time_i = 0,
       affected_systems_i = dict_get ransomware_data ''affected_systems'' (PList []),
       indicators_i = dict_get ransomware_data ''indicators'' (PDict []),
       description_i = dict_get ransomware_data ''description'' (PStr ''''),
       status_i = ''active'' \<rparr>"

definition demo_plan :: "ResponseStep list" where
  "demo_plan =
     (case generate_response_plan demo_incident of Inr steps \<Rightarrow> steps | Inl e \<Rightarrow> [])"

text \<open>The saved rows that carry a given key.\<close>

definition rows_with_key :: "database \<Rightarrow> string \<times> string \<times> pyval \<Rightarrow> response_action_row list" where
  "rows_with_key db k = filter (\<lambda>r. row_key r = k) (response_actions db)"

section \<open>Classification\<close>

text \<open>\<^verbatim>\<open>ext in s\<close> for strings: \<^verbatim>\<open>ext\<close> occurs in \<^verbatim>\<open>s\<close> as a contiguous piece.\<close>

fun starts_with :: "string \<Rightarrow> string \<Rightarrow> bool" where
  "starts_with s [] = True"
| "starts_with [] (c # cs) = False"
| "starts_with (d # ds) (c # cs) = (d = c \<and> starts_with ds cs)"

fun is_substring :: "string \<Rightarrow> string \<Rightarrow> bool" where
  "is_substring ext [] = (ext = [])"
| "is_substring ext (c # cs) = (starts_with (c # cs) ext \<or> is_substring ext cs)"

text \<open>
  \<^verbatim>\<open>key in v\<close> for a string \<^verbatim>\<open>key\<close>: key membership for a dictionary, element
  membership for a list, substring test for a string, a TypeError for other values.
\<close>

definition py_in :: "string \<Rightarrow> pyval \<Rightarrow> py_error + bool" where
  "py_in key v =
     (case v of
        PDict d \<Rightarrow> Inr (key \<in> set (map fst d))
      | PList xs \<Rightarrow> Inr (PStr key \<in> set xs)
      | PStr s \<Rightarrow> Inr (is_substring key s)
      | _ \<Rightarrow> Inl TypeError)"

text \<open>\<^verbatim>\<open>a in v or b in v\<close>: the second test runs only when the first is false.\<close>

definition in_either :: "string \<Rightarrow> string \<Rightarrow> pyval \<Rightarrow> py_error + bool" where
  "in_either a b v =
     (case py_in a v of
        Inl e \<Rightarrow> Inl e
      | Inr found \<Rightarrow> if found then Inr True else py_in b v)"

text \<open>
  \<^verbatim>\<open>_determine_incident_type\<close>. The rendering \<^verbatim>\<open>str(indicators)\<close> of Python is a
  parameter of the model.
\<close>

definition determine_incident_type :: "(pyval \<Rightarrow> string) \<Rightarrow> pydict \<Rightarrow> py_error + IncidentType" where
  "determine_incident_type py_str data =
     (let indicators = dict_get data ''indicators'' (PDict []) in
      if list_ex (\<lambda>ext. is_substring ext (py_str indicators)) [''.locked'', ''.encrypted'', ''.crypto'']
      then Inr RANSOMWARE
      else
        then_err (in_either ''data_volume'' ''external_ips'' indicators) (\<lambda>exfiltration.
        if exfiltration then Inr DATA_EXFILTRATION
        else
          then_err (in_either ''compromised_accounts'' ''privilege_escalation'' indicators)
            (\<lambda>credential.
          if credential then Inr CREDENTIAL_COMPROMISE
          else
            then_err (in_either ''attack_volume'' ''attack_sources'' indicators) (\<lambda>ddos.
            if ddos then Inr DDOS_ATTACK
            else
              then_err (in_either ''compromised_software'' ''vendor'' indicators) (\<lambda>supply.
              if supply then Inr SUPPLY_CHAIN
              else Inr INSIDER_THREAT)))))"

subsection \<open>The classification as the specification words it\<close>

text \<open>
  The ordered list of category predicates over the indicator dictionary, each with the
  type it stands for; the first predicate that holds decides, and the residual type is
  insider threat. The predicates are worded with the notions of the logic: a marker occurs
  in the rendering when the rendering splits into a front, the marker and a rest; a key is
  present when it is the first component of an entry.
\<close>

definition occurs_in :: "string \<Rightarrow> string \<Rightarrow> bool" where
  "occurs_in ext s \<longleftrightarrow> (\<exists>u v. s = u @ ext @ v)"

definition key_present :: "pydict \<Rightarrow> string \<Rightarrow> bool" where
  "key_present d key \<longleftrightarrow> key \<in> fst ` set d"

definition has_marker :: "string \<Rightarrow> bool" where
  "has_marker s \<longleftrightarrow> occurs_in ''.locked'' s \<or> occurs_in ''.encrypted'' s \<or> occurs_in ''.crypto'' s"

definition category_predicates ::
  "(pyval \<Rightarrow> string) \<Rightarrow> ((pydict \<Rightarrow> bool) \<times> IncidentType) list" where
  "category_predicates py_str =
     [(\<lambda>d. has_marker (py_str (PDict d)), RANSOMWARE),
      (\<lambda>d. key_present d ''data_volume'' \<or> key_present d ''external_ips'', DATA_EXFILTRATION),
      (\<lambda>d. key_present d ''compromised_accounts'' \<or> key_present d ''privilege_escalation'',
         CREDENTIAL_COMPROMISE),
      (\<lambda>d. key_present d ''attack_volume'' \<or> key_present d ''attack_sources'', DDOS_ATTACK),
      (\<lambda>d. key_present d ''compromised_software'' \<or> key_present d ''vendor'', SUPPLY_CHAIN)]"

definition first_match_spec :: "(pyval \<Rightarrow> string) \<Rightarrow> pydict \<Rightarrow> IncidentType" where
  "first_match_spec py_str d =
     (case find (\<lambda>pt. fst pt d) (category_predicates py_str) of
        None \<Rightarrow> INSIDER_THREAT
      | Some pt \<Rightarrow> snd pt)"

text \<open>
  Test data: four reports, and the text Python's \<^verbatim>\<open>str\<close> gives for the indicators of
  each of them.
\<close>

definition exfiltration_report :: pydict where
  "exfiltration_report =
     [(''affected_systems'', PList [PStr ''10.0.2.50'']),
      (''indicators'', PDict [
         (''external_ips'', PList [PStr ''203.0.113.7'']),
         (''compromised_accounts'', PList [PStr ''alice''])])]"

definition insider_report :: pydict where
  "insider_report =
     [(''affected_systems'', PList [PStr ''10.0.3.7'']),
      (''indicators'', PDict [(''employee_id'', PStr ''E1042'')]),
      (''description'', PStr ''unusual file access'')]"

definition null_report :: pydict where
  "null_report =
     [(''affected_systems'', PList [PStr ''10.0.3.7'']),
      (''indicators'', PNone)]"

definition str_of_demo :: "pyval \<Rightarrow> string" where
  "str_of_demo v =
     (if v = PNone then ''None''
      else if v = PDict [(''employee_id'', PStr ''E1042'')] then
        ''{'employee_id': 'E1042'}''
      else if v = PDict [(''external_ips'', PList [PStr ''203.0.113.7'']),
                         (''compromised_accounts'', PList [PStr ''alice''])] then
        ''{'external_ips': ['203.0.113.7'], 'compromised_accounts': ['alice']}''
      else if v = PDict [(''c2_ips'', PList [PStr ''198.51.100.25'', PStr ''203.0.113.50'']),
                         (''encrypted_file_extensions'', PList [PStr ''.locked'', PStr ''.encrypted''])] then
        ''{'c2_ips': ['198.51.100.25', '203.0.113.50'], 'encrypted_file_extensions': ['.locked', '.encrypted']}''
      else ''{}'')"

section \<open>The execution engine\<close>

text \<open>
  Modelled from the spec: the Execution Engine of sections 4.3, 4.4 and 5 of the
  specification, which drives a workflow of \<^verbatim>\<open>WorkflowStep\<close>s to completion. The source
  has the two operations such an engine is built on, \<^verbatim>\<open>get_next_steps\<close> and
  \<^verbatim>\<open>update_step_status\<close>, but nothing that calls them. In the words of the specification
  the engine repeatedly asks the scheduler for the ready steps, dispatches ready steps to
  workers up to a concurrency limit, waits until an outstanding step completes, records
  its result and sets its status accordingly (completed on success, failed on failure and
  on timeout, which cancels no other step), marks a step whose prerequisite is failed or
  skipped as skipped, and loops until no step is pending or in\_progress.

  What the engine does is therefore a sequence of events: a ready step starts on a free
  worker, a step in progress finishes with an outcome, a step is skipped. Section 4.3
  leaves room for a critical step to be attempted although a prerequisite has failed;
  sections 5 and 8 let no step start before all its prerequisites are completed, and
  scenario C has the dependents of a failed step skipped, so the engine skips such a step
  whatever its flag. The escalation mark on the incident and the persistence of each
  outcome do not bear on which steps run and are not part of the model.
\<close>

datatype outcome = Success string | Failure string | Timeout

datatype event = Start string | Finish string outcome | Skip string

text \<open>Modelled from the spec: the status and the result recorded for an outcome.\<close>

fun outcome_status :: "outcome \<Rightarrow> WorkflowStatus" where
  "outcome_status (Success detail) = COMPLETED"
| "outcome_status (Failure detail) = FAILED"
| "outcome_status Timeout = FAILED"

fun outcome_result :: "outcome \<Rightarrow> string option" where
  "outcome_result (Success detail) = Some detail"
| "outcome_result (Failure detail) = Some detail"
| "outcome_result Timeout = Some ''timeout''"

text \<open>Modelled from the spec: the steps that occupy a worker.\<close>

definition in_flight :: "WorkflowStep list \<Rightarrow> WorkflowStep list" where
  "in_flight workflow = filter (\<lambda>s. status s = IN_PROGRESS) workflow"

text \<open>
  Modelled from the spec: a pending step is skipped when one of its prerequisites is
  failed or skipped. Prerequisite ids are resolved as the scheduler resolves them.
\<close>

definition prereq_lost :: "WorkflowStep list \<Rightarrow> string \<Rightarrow> bool" where
  "prereq_lost workflow p =
     (case find_step workflow p of
        None \<Rightarrow> False
      | Some t \<Rightarrow> status t = FAILED \<or> status t = SKIPPED)"

definition skippable :: "WorkflowStep list \<Rightarrow> WorkflowStep \<Rightarrow> bool" where
  "skippable workflow s \<longleftrightarrow> status s = PENDING \<and> list_ex (prereq_lost workflow) (prereq_list s)"

text \<open>
  Modelled from the spec: when an event can happen. A step starts when the scheduler
  reports it ready and fewer than \<^verbatim>\<open>max_workers\<close> steps are in progress; a step finishes
  when it is in progress; a step is skipped when it is pending and has lost a prerequisite.
\<close>

fun enabled :: "nat \<Rightarrow> WorkflowEngine \<Rightarrow> string \<Rightarrow> event \<Rightarrow> bool" where
  "enabled max_workers engine incident_id (Start sid) =
     (sid \<in> set (map step_id (get_next_steps engine incident_id)) \<and>
      length (in_flight (workflow_of engine incident_id)) < max_workers)"
| "enabled max_workers engine incident_id (Finish sid out) =
     (sid \<in> set (map step_id (in_flight (workflow_of engine incident_id))))"
| "enabled max_workers engine incident_id (Skip sid) =
     (sid \<in> set (map step_id (filter (skippable (workflow_of engine incident_id))
                                 (workflow_of engine incident_id))))"

text \<open>
  Modelled from the spec: what an event records, through \<^verbatim>\<open>update_step_status\<close> of the
  source.
\<close>

fun apply_event :: "nat \<Rightarrow> WorkflowEngine \<Rightarrow> string \<Rightarrow> event \<Rightarrow> WorkflowEngine" where
  "apply_event now engine incident_id (Start sid) =
     snd (update_step_status engine incident_id sid IN_PROGRESS None now)"
| "apply_event now engine incident_id (Finish sid out) =
     snd (update_step_status engine incident_id sid (outcome_status out) (outcome_result out) now)"
| "apply_event now engine incident_id (Skip sid) =
     snd (update_step_status engine incident_id sid SKIPPED (Some ''prerequisite not completed'') now)"

text \<open>
  Modelled from the spec: an execution is a sequence of events each of which can happen
  when its turn comes; \<^verbatim>\<open>None\<close> when one of them cannot.
\<close>

fun exec :: "nat \<Rightarrow> nat \<Rightarrow> WorkflowEngine \<Rightarrow> string \<Rightarrow> event list \<Rightarrow> WorkflowEngine option" where
  "exec max_workers now engine incident_id [] = Some engine"
| "exec max_workers now engine incident_id (ev # evs) =
     (if enabled max_workers engine incident_id ev
      then exec max_workers now (apply_event now engine incident_id ev) incident_id evs
      else None)"

text \<open>Modelled from the spec: the workflow is done when no step is pending or in\_progress.\<close>

definition workflow_done :: "WorkflowEngine \<Rightarrow> string \<Rightarrow> bool" where
  "workflow_done engine incident_id =
     list_all (\<lambda>s. status s \<noteq> PENDING \<and> status s \<noteq> IN_PROGRESS) (workflow_of engine incident_id)"

text \<open>
  Modelled from the spec: the events that can happen in a state, when the Action
  Dispatcher is a function from the step to its outcome.
\<close>

definition enabled_events ::
  "nat \<Rightarrow> (WorkflowStep \<Rightarrow> outcome) \<Rightarrow> WorkflowEngine \<Rightarrow> string \<Rightarrow> event list" where
  "enabled_events max_workers dispatch engine incident_id =
     (if length (in_flight (workflow_of engine incident_id)) < max_workers
      then map (\<lambda>s. Start (step_id s)) (get_next_steps engine incident_id)
      else []) @
     map (\<lambda>s. Finish (step_id s) (dispatch s)) (in_flight (workflow_of engine incident_id)) @
     map (\<lambda>s. Skip (step_id s))
       (filter (skippable (workflow_of engine incident_id)) (workflow_of engine incident_id))"

text \<open>
  Modelled from the spec: the loop of the engine. As long as the workflow is not done it
  lets one of the events that can happen take place; \<^verbatim>\<open>pick\<close> stands for the order in
  which the workers report. The loop has no deadline of its own; the bound \<^verbatim>\<open>fuel\<close> on
  the number of events serves to state that it ends, and \<^verbatim>\<open>None\<close> means that it has not
  ended within the bound or that no event can happen.
\<close>

fun run_workflow ::
  "nat \<Rightarrow> (event list \<Rightarrow> event) \<Rightarrow> (WorkflowStep \<Rightarrow> outcome) \<Rightarrow> nat \<Rightarrow> nat
     \<Rightarrow> WorkflowEngine \<Rightarrow> string \<Rightarrow> WorkflowEngine option" where
  "run_workflow 0 pick dispatch max_workers now engine incident_id =
     (if workflow_done engine incident_id then Some engine else None)"
| "run_workflow (Suc n) pick dispatch max_workers now engine incident_id =
     (if workflow_done engine incident_id then Some engine
      else
        (case enabled_events max_workers dispatch engine incident_id of
           [] \<Rightarrow> None
         | ev # evs \<Rightarrow>
             run_workflow n pick dispatch max_workers now
               (apply_event now engine incident_id (pick (ev # evs))) incident_id))"

subsection \<open>Notions for the properties of the engine\<close>

text \<open>The changes of status the events make to a step \<^verbatim>\<open>r\<close> of a workflow.\<close>

definition legal :: "WorkflowStep list \<Rightarrow> WorkflowStep \<Rightarrow> WorkflowStatus \<Rightarrow> bool" where
  "legal workflow r st \<longleftrightarrow>
     (ready workflow r \<and> st = IN_PROGRESS) \<or>
     (status r = IN_PROGRESS \<and> (st = COMPLETED \<or> st = FAILED)) \<or>
     (skippable workflow r \<and> st = SKIPPED)"

text \<open>The work that remains: two events for a pending step, one for a step in progress.\<close>

definition remaining_work :: "WorkflowStep list \<Rightarrow> nat" where
  "remaining_work workflow =
     2 * length (filter (\<lambda>s. status s = PENDING) workflow) +
     length (filter (\<lambda>s. status s = IN_PROGRESS) workflow)"

text \<open>Every step that has started has all its prerequisites completed.\<close>

definition started :: "WorkflowStep \<Rightarrow> bool" where
  "started s \<longleftrightarrow> status s = IN_PROGRESS \<or> status s = COMPLETED \<or> status s = FAILED"

definition ordered :: "WorkflowStep list \<Rightarrow> bool" where
  "ordered workflow \<longleftrightarrow>
     (\<forall>s \<in> set workflow. started s \<longrightarrow>
        (\<forall>p \<in> set (prereq_list s). \<exists>t \<in> set workflow. step_id t = p \<and> status t = COMPLETED))"

text \<open>
  The invariants of the data model: step ids are unique within the workflow, every
  prerequisite is the id of a step of the workflow, and the prerequisite graph is acyclic.
\<close>

definition well_formed :: "WorkflowStep list \<Rightarrow> bool" where
  "well_formed workflow \<longleftrightarrow>
     distinct (map step_id workflow) \<and>
     (\<forall>s \<in> set workflow. set (prereq_list s) \<subseteq> step_id ` set workflow) \<and>
     acyclic (prereq_rel workflow)"

subsection \<open>Test data for the engine\<close>

text \<open>
  A dispatcher under which RANSOM\_001 times out and every other step succeeds; an
  execution of the test workflow with two steps in progress at the same time; and a
  workflow of three steps listed against the order of their prerequisites.
\<close>

definition failing_dispatch :: "WorkflowStep \<Rightarrow> outcome" where
  "failing_dispatch step =
     (if step_id step = ''RANSOM_001'' then Timeout else Success ''Success'')"

definition demo_events :: "event list" where
  "demo_events =
     [Start ''RANSOM_001'', Start ''RANSOM_002'', Finish ''RANSOM_001'' (Success ''Success''),
      Start ''RANSOM_004'']"

definition demo_exec :: WorkflowEngine where
  "demo_exec =
     (case exec 5 1 demo_engine ''INC-001'' demo_events of Some e \<Rightarrow> e | None \<Rightarrow> demo_engine)"

definition demo_final :: WorkflowEngine where
  "demo_final =
     (case run_workflow 16 hd failing_dispatch 5 1 demo_engine ''INC-001'' of
        Some e \<Rightarrow> e
      | None \<Rightarrow> demo_engine)"

definition reversed_steps :: "WorkflowStep list" where
  "reversed_steps =
     [new_step ''C'' ''third'' ''waits for B'' ''collect_evidence'' [] (Some [''B'']) 10 False,
      new_step ''B'' ''second'' ''waits for A'' ''collect_evidence'' [] (Some [''A'']) 10 False,
      new_step ''A'' ''first'' ''waits for nothing'' ''isolate_systems'' [] None 10 True]"

definition reversed_engine :: WorkflowEngine where
  "reversed_engine = WorkflowEngine_init\<lparr> active_workflows := [''INC-REV'' \<mapsto> reversed_steps] \<rparr>"

definition reversed_final :: WorkflowEngine where
  "reversed_final =
     (case run_workflow 6 hd (\<lambda>s. Success ''Success'') 1 1 reversed_engine ''INC-REV'' of
        Some e \<Rightarrow> e
      | None \<Rightarrow> reversed_engine)"

section \<open>Properties of the scheduler query\<close>

lemma prereq_met_iff: "prereq_met workflow ps \<longleftrightarrow> list_all (prereq_completed workflow) ps"
  by (induction ps) (auto simp: prereq_completed_def split: option.splits)

lemma next_steps_loop_filter:
  "next_steps_loop workflow xs acc = acc @ filter (ready workflow) xs"
  by (induction xs arbitrary: acc)
     (auto simp: ready_def prereq_list_def prereq_met_iff split: option.splits)

lemma get_next_steps_filter:
  "get_next_steps engine incident_id =
     (case active_workflows engine incident_id of
        None \<Rightarrow> []
      | Some workflow \<Rightarrow> filter (ready workflow) workflow)"
  by (simp add: get_next_steps_def next_steps_loop_filter split: option.splits)

section \<open>Frame of the status update\<close>

lemma find_step_None_iff: "find_step workflow sid = None \<longleftrightarrow> sid \<notin> step_id ` set workflow"
  by (auto simp: find_step_def find_None_iff)

lemma mutate_first_index:
  "\<exists>x \<in> set xs. P x \<Longrightarrow>
   \<exists>i < length xs. P (xs ! i) \<and> (\<forall>j < i. \<not> P (xs ! j)) \<and> mutate_first P f xs = xs[i := f (xs ! i)]"
proof (induction xs)
  case Nil
  then show ?case by simp
next
  case (Cons x xs)
  show ?case
  proof (cases "P x")
    case True
    then have "P ((x # xs) ! 0) \<and> (\<forall>j < 0. \<not> P ((x # xs) ! j)) \<and>
      mutate_first P f (x # xs) = (x # xs)[0 := f ((x # xs) ! 0)]"
      by simp
    then show ?thesis by blast
  next
    case False
    with Cons.prems have "\<exists>x \<in> set xs. P x" by simp
    from Cons.IH [OF this] obtain i where i: "i < length xs" "P (xs ! i)"
      "\<forall>j < i. \<not> P (xs ! j)" "mutate_first P f xs = xs[i := f (xs ! i)]"
      by blast
    have "\<forall>j < Suc i. \<not> P ((x # xs) ! j)"
      using False i(3) by (auto simp: nth_Cons split: nat.splits)
    moreover have "mutate_first P f (x # xs) = (x # xs)[Suc i := f ((x # xs) ! Suc i)]"
      using False i(4) by simp
    ultimately have "Suc i < length (x # xs) \<and> P ((x # xs) ! Suc i) \<and>
      (\<forall>j < Suc i. \<not> P ((x # xs) ! j)) \<and>
      mutate_first P f (x # xs) = (x # xs)[Suc i := f ((x # xs) ! Suc i)]"
      using i(1,2) by simp
    then show ?thesis by blast
  qed
qed

text \<open>
  Claim C10. \<^verbatim>\<open>update_step_status\<close> returns False and leaves the engine as it is when the
  incident has no active workflow or the step id does not occur in its workflow. Otherwise
  it returns True and changes exactly one step, the first one with that id: its status and
  result are set, its execution time is set only for the statuses completed and failed and
  keeps its previous value for skipped, in\_progress and pending. Every other step and every
  other workflow stays as it was.
\<close>

theorem update_step_status_frame:
  "((\<forall>workflow. active_workflows engine incident_id = Some workflow \<longrightarrow>
        sid \<notin> step_id ` set workflow) \<longrightarrow>
      update_step_status engine incident_id sid new_status res now = (False, engine)) \<and>
   (\<forall>workflow. active_workflows engine incident_id = Some workflow \<and>
        sid \<in> step_id ` set workflow \<longrightarrow>
      (\<exists>i < length workflow.
         step_id (workflow ! i) = sid \<and> (\<forall>j < i. step_id (workflow ! j) \<noteq> sid) \<and>
         update_step_status engine incident_id sid new_status res now =
           (True,
            engine\<lparr> active_workflows := (active_workflows engine)
              (incident_id \<mapsto>
                 workflow[i := (workflow ! i)\<lparr>
                   status := new_status,
                   result := res,
                   execution_time :=
                     (if new_status = COMPLETED \<or> new_status = FAILED then Some now
                      else execution_time (workflow ! i)) \<rparr>]) \<rparr>)))"
proof (intro conjI impI allI)
  assume a: "\<forall>workflow. active_workflows engine incident_id = Some workflow \<longrightarrow>
        sid \<notin> step_id ` set workflow"
  show "update_step_status engine incident_id sid new_status res now = (False, engine)"
  proof (cases "active_workflows engine incident_id")
    case None
    then show ?thesis by (simp add: update_step_status_def)
  next
    case (Some workflow)
    with a have "find_step workflow sid = None" by (simp add: find_step_None_iff)
    with Some show ?thesis by (simp add: update_step_status_def)
  qed
next
  fix workflow
  assume b: "active_workflows engine incident_id = Some workflow \<and>
        sid \<in> step_id ` set workflow"
  then have ex: "\<exists>s \<in> set workflow. step_id s = sid" by auto
  then obtain step where st: "find_step workflow sid = Some step"
    using find_step_None_iff [of workflow sid] b by (cases "find_step workflow sid") auto
  from mutate_first_index [OF ex, of "set_step_status new_status res now"]
  obtain i where i: "i < length workflow" "step_id (workflow ! i) = sid"
      "\<forall>j < i. step_id (workflow ! j) \<noteq> sid"
      "mutate_first (\<lambda>s. step_id s = sid) (set_step_status new_status res now) workflow =
         workflow[i := set_step_status new_status res now (workflow ! i)]"
    by blast
  have "update_step_status engine incident_id sid new_status res now =
           (True,
            engine\<lparr> active_workflows := (active_workflows engine)
              (incident_id \<mapsto>
                 workflow[i := (workflow ! i)\<lparr>
                   status := new_status,
                   result := res,
                   execution_time :=
                     (if new_status = COMPLETED \<or> new_status = FAILED then Some now
                      else execution_time (workflow ! i)) \<rparr>]) \<rparr>)"
    using b st i(4) by (simp add: update_step_status_def set_step_status_def)
  with i(1,2,3) show "\<exists>i < length workflow.
         step_id (workflow ! i) = sid \<and> (\<forall>j < i. step_id (workflow ! j) \<noteq> sid) \<and>
         update_step_status engine incident_id sid new_status res now =
           (True,
            engine\<lparr> active_workflows := (active_workflows engine)
              (incident_id \<mapsto>
                 workflow[i := (workflow ! i)\<lparr>
                   status := new_status,
                   result := res,
                   execution_time :=
                     (if new_status = COMPLETED \<or> new_status = FAILED then Some now
                      else execution_time (workflow ! i)) \<rparr>]) \<rparr>)"
    by blast
qed

theorem update_step_status_frame_witness:
  "update_step_status demo_engine ''INC-404'' ''RANSOM_001'' COMPLETED None 7 = (False, demo_engine) \<and>
   active_workflows demo_engine ''INC-001'' = Some demo_workflow \<and>
   ''RANSOM_004'' \<in> step_id ` set demo_workflow \<and>
   fst (update_step_status demo_engine ''INC-001'' ''RANSOM_004'' SKIPPED (Some ''isolation failed'') 7)"
proof -
  have n: "\<forall>workflow. active_workflows demo_engine ''INC-404'' = Some workflow \<longrightarrow>
             ''RANSOM_001'' \<notin> step_id ` set workflow"
    by (simp add: demo_engine_def)
  have a: "active_workflows demo_engine ''INC-001'' = Some demo_workflow"
    by (simp add: demo_engine_def)
  have b: "''RANSOM_004'' \<in> step_id ` set demo_workflow"
    by (simp add: demo_workflow_def RansomwareWorkflow_generate_workflow_def ransomware_data_def
          get_subdict_def dict_get_def new_step_def Let_def)
  from update_step_status_frame [of demo_engine "''INC-404''" "''RANSOM_001''" COMPLETED None 7] n
  have 1: "update_step_status demo_engine ''INC-404'' ''RANSOM_001'' COMPLETED None 7 =
             (False, demo_engine)"
    by blast
  from update_step_status_frame
         [of demo_engine "''INC-001''" "''RANSOM_004''" SKIPPED "Some ''isolation failed''" 7] a b
  have "\<exists>e. update_step_status demo_engine ''INC-001'' ''RANSOM_004'' SKIPPED
               (Some ''isolation failed'') 7 = (True, e)"
    by blast
  then have 2: "fst (update_step_status demo_engine ''INC-001'' ''RANSOM_004'' SKIPPED
                       (Some ''isolation failed'') 7)"
    by auto
  from 1 2 a b show ?thesis by blast
qed

section \<open>Status transitions\<close>

lemmas demo_defs = demo_engine_def demo_workflow_def RansomwareWorkflow_generate_workflow_def
  ransomware_data_def get_subdict_def dict_get_def new_step_def Let_def WorkflowEngine_init_def

lemma step_id_set_step_status [simp]:
  "step_id (set_step_status new_status res now s) = step_id s"
  by (simp add: set_step_status_def)

lemma status_set_step_status [simp]:
  "status (set_step_status new_status res now s) = new_status"
  by (simp add: set_step_status_def)

lemma prerequisites_set_step_status [simp]:
  "prerequisites (set_step_status new_status res now s) = prerequisites s"
  by (simp add: set_step_status_def)

lemma find_step_mutate_first:
  assumes "\<And>s. step_id (f s) = step_id s"
  shows "find_step (mutate_first (\<lambda>s. step_id s = sid) f workflow) sid' =
         (if sid' = sid then map_option f (find_step workflow sid) else find_step workflow sid')"
  using assms by (induction workflow) (auto simp: find_step_def)

lemma update_step_status_success:
  assumes "active_workflows engine incident_id = Some workflow"
    and "sid \<in> step_id ` set workflow"
  shows "update_step_status engine incident_id sid new_status res now =
     (True, engine\<lparr> active_workflows := (active_workflows engine)
        (incident_id \<mapsto> mutate_first (\<lambda>s. step_id s = sid)
                             (set_step_status new_status res now) workflow) \<rparr>)"
proof -
  from assms(2) have "find_step workflow sid \<noteq> None"
    by (auto simp: find_step_def find_None_iff)
  with assms(1) show ?thesis
    by (auto simp: update_step_status_def)
qed

lemma status_of_update:
  assumes "active_workflows engine incident_id = Some workflow"
    and "sid \<in> step_id ` set workflow"
  shows "status_of (snd (update_step_status engine incident_id sid new_status res now))
           incident_id sid' =
         (if sid' = sid then Some new_status else status_of engine incident_id sid')"
proof -
  from assms(2) obtain s where "find_step workflow sid = Some s"
    by (cases "find_step workflow sid") (auto simp: find_step_def find_None_iff)
  then show ?thesis
    using assms
    by (simp add: update_step_status_success status_of_def find_step_mutate_first)
qed

text \<open>
  Claim C8, as amended. \<^verbatim>\<open>update_step_status\<close> does not guard the transition: for every
  step present in the workflow and every new status the call succeeds and the step reports
  the new status, whatever its status was before (a terminal status included, and pending
  included as the new status); the status of every other step id is unchanged.
\<close>

theorem update_step_status_unguarded:
  "active_workflows engine incident_id = Some workflow \<and> sid \<in> step_id ` set workflow \<longrightarrow>
     fst (update_step_status engine incident_id sid new_status res now) \<and>
     status_of (snd (update_step_status engine incident_id sid new_status res now))
       incident_id sid = Some new_status \<and>
     (\<forall>sid'. sid' \<noteq> sid \<longrightarrow>
        status_of (snd (update_step_status engine incident_id sid new_status res now))
          incident_id sid' = status_of engine incident_id sid')"
proof (intro impI)
  assume "active_workflows engine incident_id = Some workflow \<and> sid \<in> step_id ` set workflow"
  then have a: "active_workflows engine incident_id = Some workflow"
    and b: "sid \<in> step_id ` set workflow"
    by blast+
  show "fst (update_step_status engine incident_id sid new_status res now) \<and>
     status_of (snd (update_step_status engine incident_id sid new_status res now))
       incident_id sid = Some new_status \<and>
     (\<forall>sid'. sid' \<noteq> sid \<longrightarrow>
        status_of (snd (update_step_status engine incident_id sid new_status res now))
          incident_id sid' = status_of engine incident_id sid')"
    using status_of_update [OF a b] update_step_status_success [OF a b] by simp
qed

lemma demo_ids: "step_id ` set demo_workflow = {''RANSOM_001'', ''RANSOM_002'', ''RANSOM_003'', ''RANSOM_004'',
   ''RANSOM_005'', ''RANSOM_006'', ''RANSOM_007'', ''RANSOM_008''}"
  by (simp add: demo_defs)

lemma demo_active: "active_workflows demo_engine ''INC-001'' = Some demo_workflow"
  by (simp add: demo_engine_def)

theorem update_step_status_unguarded_witness:
  "active_workflows demo_engine ''INC-001'' = Some demo_workflow \<and>
   ''RANSOM_002'' \<in> step_id ` set demo_workflow \<and>
   status_of (snd (update_step_status demo_engine ''INC-001'' ''RANSOM_002'' SKIPPED None 3))
     ''INC-001'' ''RANSOM_002'' = Some SKIPPED"
proof -
  have b: "''RANSOM_002'' \<in> step_id ` set demo_workflow"
    unfolding demo_ids by simp
  from update_step_status_unguarded
         [of demo_engine "''INC-001''" demo_workflow "''RANSOM_002''" SKIPPED None 3]
       demo_active b
  show ?thesis by blast
qed

text \<open>
  Claim C8 as stated fails: the completed step RANSOM\_001 of the test workflow is moved
  back to pending by a call that succeeds.
\<close>

theorem step_status_monotonic_counterexample:
  "status_of demo_completed ''INC-001'' ''RANSOM_001'' = Some COMPLETED \<and>
   fst (update_step_status demo_completed ''INC-001'' ''RANSOM_001'' PENDING None 2) \<and>
   status_of demo_reset ''INC-001'' ''RANSOM_001'' = Some PENDING"
  by (simp add: demo_completed_def demo_reset_def status_of_def update_step_status_def
        find_step_def set_step_status_def demo_defs)

section \<open>Starting and failing steps\<close>

lemma find_step_distinct:
  "distinct (map step_id workflow) \<Longrightarrow> s \<in> set workflow \<Longrightarrow> find_step workflow (step_id s) = Some s"
  by (induction workflow) (auto simp: find_step_def)

lemma get_next_steps_set:
  "active_workflows engine incident_id = Some workflow \<Longrightarrow>
   set (get_next_steps engine incident_id) = {s \<in> set workflow. ready workflow s}"
  by (simp add: get_next_steps_filter)

lemma status_of_Some:
  "active_workflows engine incident_id = Some workflow \<Longrightarrow>
   status_of engine incident_id p = Some COMPLETED \<longleftrightarrow> prereq_completed workflow p"
  by (auto simp: status_of_def prereq_completed_def split: option.splits)

lemma mutate_first_keeps:
  "t \<in> set xs \<Longrightarrow> \<not> P t \<Longrightarrow> t \<in> set (mutate_first P f xs)"
  by (induction xs) auto

lemma prereq_completed_mutate:
  "p \<noteq> sid \<Longrightarrow>
   prereq_completed (mutate_first (\<lambda>s. step_id s = sid) (set_step_status st res now) workflow) p
     = prereq_completed workflow p"
  by (simp add: prereq_completed_def find_step_mutate_first)

lemma prereq_completed_failed:
  "sid \<in> step_id ` set workflow \<Longrightarrow> st \<noteq> COMPLETED \<Longrightarrow>
   \<not> prereq_completed (mutate_first (\<lambda>s. step_id s = sid) (set_step_status st res now) workflow) sid"
proof -
  assume "sid \<in> step_id ` set workflow" and n: "st \<noteq> COMPLETED"
  then obtain s where "find_step workflow sid = Some s"
    by (cases "find_step workflow sid") (auto simp: find_step_def find_None_iff)
  then have "find_step (mutate_first (\<lambda>s. step_id s = sid) (set_step_status st res now) workflow) sid
      = Some (set_step_status st res now s)"
    by (simp add: find_step_mutate_first)
  with n show ?thesis by (simp add: prereq_completed_def)
qed

text \<open>
  Claim C2, as amended. When a step (critical or not) of a workflow is marked failed, the
  engine changes that step only: the status of every other step id is unchanged, so no
  dependent step becomes skipped, and no other workflow is touched (the engine holds no
  incident status to escalate). No step that lists the failed step as a prerequisite is
  returned by \<^verbatim>\<open>get_next_steps\<close> afterwards, and every step that was ready before, is not
  the failed step and does not list it, is still returned.
\<close>

theorem failed_step_policy:
  "active_workflows engine incident_id = Some workflow \<and> sid \<in> step_id ` set workflow \<longrightarrow>
     status_of (snd (update_step_status engine incident_id sid FAILED res now)) incident_id sid
       = Some FAILED \<and>
     (\<forall>sid'. sid' \<noteq> sid \<longrightarrow>
        status_of (snd (update_step_status engine incident_id sid FAILED res now)) incident_id sid'
          = status_of engine incident_id sid') \<and>
     (\<forall>t \<in> set (get_next_steps (snd (update_step_status engine incident_id sid FAILED res now))
                   incident_id).
        sid \<notin> set (prereq_list t)) \<and>
     (\<forall>t \<in> set (get_next_steps engine incident_id).
        step_id t \<noteq> sid \<and> sid \<notin> set (prereq_list t) \<longrightarrow>
        t \<in> set (get_next_steps (snd (update_step_status engine incident_id sid FAILED res now))
                   incident_id)) \<and>
     (\<forall>other. other \<noteq> incident_id \<longrightarrow>
        active_workflows (snd (update_step_status engine incident_id sid FAILED res now)) other
          = active_workflows engine other)"
proof (intro impI)
  assume h: "active_workflows engine incident_id = Some workflow \<and> sid \<in> step_id ` set workflow"
  then have a: "active_workflows engine incident_id = Some workflow"
    and b: "sid \<in> step_id ` set workflow" by blast+
  define workflow' where
    "workflow' = mutate_first (\<lambda>s. step_id s = sid) (set_step_status FAILED res now) workflow"
  define engine' where "engine' = snd (update_step_status engine incident_id sid FAILED res now)"
  have e': "engine' = engine\<lparr> active_workflows := (active_workflows engine)(incident_id \<mapsto> workflow') \<rparr>"
    by (simp add: engine'_def workflow'_def update_step_status_success [OF a b])
  have a': "active_workflows engine' incident_id = Some workflow'"
    by (simp add: e')
  have 1: "status_of engine' incident_id sid = Some FAILED"
    unfolding engine'_def by (simp add: status_of_update [OF a b])
  have 2: "\<forall>sid'. sid' \<noteq> sid \<longrightarrow> status_of engine' incident_id sid' = status_of engine incident_id sid'"
    unfolding engine'_def by (simp add: status_of_update [OF a b])
  have 3: "\<forall>t \<in> set (get_next_steps engine' incident_id). sid \<notin> set (prereq_list t)"
  proof
    fix t assume "t \<in> set (get_next_steps engine' incident_id)"
    then have "ready workflow' t" by (simp add: get_next_steps_set [OF a'])
    then have "\<forall>p \<in> set (prereq_list t). prereq_completed workflow' p"
      by (simp add: ready_def list_all_iff)
    moreover have "\<not> prereq_completed workflow' sid"
      unfolding workflow'_def using b by (rule prereq_completed_failed) simp
    ultimately show "sid \<notin> set (prereq_list t)" by blast
  qed
  have 4: "\<forall>t \<in> set (get_next_steps engine incident_id).
        step_id t \<noteq> sid \<and> sid \<notin> set (prereq_list t) \<longrightarrow>
        t \<in> set (get_next_steps engine' incident_id)"
  proof (intro ballI impI)
    fix t assume t: "t \<in> set (get_next_steps engine incident_id)"
      and n: "step_id t \<noteq> sid \<and> sid \<notin> set (prereq_list t)"
    from t have tw: "t \<in> set workflow" and r: "ready workflow t"
      by (simp_all add: get_next_steps_set [OF a])
    from tw n have "t \<in> set workflow'"
      unfolding workflow'_def by (intro mutate_first_keeps) simp_all
    moreover have "ready workflow' t"
    proof -
      have "prereq_completed workflow' p" if "p \<in> set (prereq_list t)" for p
      proof -
        from that n have "p \<noteq> sid" by blast
        moreover from r that have "prereq_completed workflow p"
          by (simp add: ready_def list_all_iff)
        ultimately show ?thesis
          unfolding workflow'_def by (simp add: prereq_completed_mutate)
      qed
      with r show ?thesis by (simp add: ready_def list_all_iff)
    qed
    ultimately show "t \<in> set (get_next_steps engine' incident_id)"
      by (simp add: get_next_steps_set [OF a'])
  qed
  have 5: "\<forall>other. other \<noteq> incident_id \<longrightarrow>
        active_workflows engine' other = active_workflows engine other"
    by (simp add: e')
  from 1 2 3 4 5 show "status_of (snd (update_step_status engine incident_id sid FAILED res now)) incident_id sid
       = Some FAILED \<and>
     (\<forall>sid'. sid' \<noteq> sid \<longrightarrow>
        status_of (snd (update_step_status engine incident_id sid FAILED res now)) incident_id sid'
          = status_of engine incident_id sid') \<and>
     (\<forall>t \<in> set (get_next_steps (snd (update_step_status engine incident_id sid FAILED res now))
                   incident_id).
        sid \<notin> set (prereq_list t)) \<and>
     (\<forall>t \<in> set (get_next_steps engine incident_id).
        step_id t \<noteq> sid \<and> sid \<notin> set (prereq_list t) \<longrightarrow>
        t \<in> set (get_next_steps (snd (update_step_status engine incident_id sid FAILED res now))
                   incident_id)) \<and>
     (\<forall>other. other \<noteq> incident_id \<longrightarrow>
        active_workflows (snd (update_step_status engine incident_id sid FAILED res now)) other
          = active_workflows engine other)"
    unfolding engine'_def by blast
qed

lemmas run_defs = demo_completed_def demo_reset_def demo_failed_def
  status_of_def workflow_of_def update_step_status_def find_step_def set_step_status_def
  get_next_steps_def prereq_list_def

theorem failed_step_policy_witness:
  "active_workflows demo_engine ''INC-001'' = Some demo_workflow \<and>
   ''RANSOM_001'' \<in> step_id ` set demo_workflow \<and>
   status_of demo_failed ''INC-001'' ''RANSOM_001'' = Some FAILED \<and>
   status_of demo_failed ''INC-001'' ''RANSOM_004'' = status_of demo_engine ''INC-001'' ''RANSOM_004''"
proof -
  have b: "''RANSOM_001'' \<in> step_id ` set demo_workflow"
    unfolding demo_ids by simp
  from failed_step_policy [of demo_engine "''INC-001''" demo_workflow "''RANSOM_001''" "Some ''timeout''" 1]
       demo_active b
  have "status_of demo_failed ''INC-001'' ''RANSOM_001'' = Some FAILED \<and>
        (\<forall>sid'. sid' \<noteq> ''RANSOM_001'' \<longrightarrow>
           status_of demo_failed ''INC-001'' sid' = status_of demo_engine ''INC-001'' sid')"
    unfolding demo_failed_def by blast
  then show ?thesis using demo_active b by simp
qed

text \<open>
  Claim C2 as stated fails: after the critical step RANSOM\_001 of the test workflow has
  been marked failed, the step RANSOM\_004, whose prerequisite it is, is still pending and
  not skipped.
\<close>

theorem critical_failure_counterexample:
  "step_id (workflow_of demo_failed ''INC-001'' ! 0) = ''RANSOM_001'' \<and>
   critical (workflow_of demo_failed ''INC-001'' ! 0) \<and>
   status (workflow_of demo_failed ''INC-001'' ! 0) = FAILED \<and>
   step_id (workflow_of demo_failed ''INC-001'' ! 3) = ''RANSOM_004'' \<and>
   prerequisites (workflow_of demo_failed ''INC-001'' ! 3) = Some [''RANSOM_001''] \<and>
   status (workflow_of demo_failed ''INC-001'' ! 3) = PENDING \<and>
   status (workflow_of demo_failed ''INC-001'' ! 3) \<noteq> SKIPPED"
  by (simp add: run_defs demo_defs)

section \<open>Workflow creation and the prerequisite graph\<close>

lemma pos_in_prefix: "p \<in> set xs \<Longrightarrow> pos (xs @ ys) p < length xs"
  unfolding pos_def
  by (induction xs) auto

lemma pos_at_end: "x \<notin> set xs \<Longrightarrow> pos (xs @ x # ys) x = length xs"
  unfolding pos_def
  by (induction xs) auto

lemma topo_from_pos:
  "topo_from seen w \<Longrightarrow> distinct (seen @ map step_id w) \<Longrightarrow> (a, b) \<in> prereq_rel w \<Longrightarrow>
   pos (seen @ map step_id w) b < pos (seen @ map step_id w) a"
proof (induction w arbitrary: seen)
  case Nil
  then show ?case by (simp add: prereq_rel_def)
next
  case (Cons s ss)
  from Cons.prems(3) consider
    (head) "a = step_id s" "b \<in> set (prereq_list s)" |
    (tail) "(a, b) \<in> prereq_rel ss"
    by (auto simp: prereq_rel_def)
  then show ?case
  proof cases
    case head
    from Cons.prems(1) head(2) have "b \<in> set seen" by (auto simp: list_all_iff)
    then have "pos (seen @ map step_id (s # ss)) b < length seen"
      by (rule pos_in_prefix)
    moreover from Cons.prems(2) have "step_id s \<notin> set seen" by auto
    then have "pos (seen @ map step_id (s # ss)) (step_id s) = length seen"
      by (simp add: pos_at_end)
    ultimately show ?thesis using head(1) by simp
  next
    case tail
    from Cons.prems(1) have t: "topo_from (seen @ [step_id s]) ss" by simp
    from Cons.prems(2) have d: "distinct ((seen @ [step_id s]) @ map step_id ss)" by simp
    from Cons.IH [OF t d tail] show ?thesis by simp
  qed
qed

lemma topologically_ordered_acyclic:
  assumes "topologically_ordered w" and "distinct (map step_id w)"
  shows "acyclic (prereq_rel w)"
proof -
  have "prereq_rel w \<subseteq> (measure (pos (map step_id w)))\<inverse>"
    using topo_from_pos [of "[]" w] assms
    by (auto simp: topologically_ordered_def)
  then have "(prereq_rel w)\<inverse> \<subseteq> measure (pos (map step_id w))" by auto
  then have "wf ((prereq_rel w)\<inverse>)" by (rule wf_subset [OF wf_measure])
  then have "acyclic ((prereq_rel w)\<inverse>)" by (rule wf_acyclic)
  then show ?thesis by (simp only: acyclic_converse)
qed

lemma ransomware_topo:
  "RansomwareWorkflow_generate_workflow incident_data = Inr steps \<Longrightarrow>
   topologically_ordered steps \<and> distinct (map step_id steps)"
  by (auto simp: RansomwareWorkflow_generate_workflow_def topologically_ordered_def Let_def
        new_step_def prereq_list_def split: sum.splits)

lemma exfiltration_topo:
  "DataExfiltrationWorkflow_generate_workflow incident_data = Inr steps \<Longrightarrow>
   topologically_ordered steps \<and> distinct (map step_id steps)"
  by (auto simp: DataExfiltrationWorkflow_generate_workflow_def topologically_ordered_def Let_def
        new_step_def prereq_list_def split: sum.splits if_splits)

lemma credential_topo:
  "CredentialCompromiseWorkflow_generate_workflow incident_data = Inr steps \<Longrightarrow>
   topologically_ordered steps \<and> distinct (map step_id steps)"
  by (auto simp: CredentialCompromiseWorkflow_generate_workflow_def topologically_ordered_def Let_def
        new_step_def prereq_list_def split: sum.splits)

lemma ddos_topo:
  "DDoSWorkflow_generate_workflow incident_data = Inr steps \<Longrightarrow>
   topologically_ordered steps \<and> distinct (map step_id steps)"
  by (auto simp: DDoSWorkflow_generate_workflow_def topologically_ordered_def Let_def
        new_step_def prereq_list_def split: sum.splits)

lemma insider_topo:
  "InsiderThreatWorkflow_generate_workflow incident_data = Inr steps \<Longrightarrow>
   topologically_ordered steps \<and> distinct (map step_id steps)"
  by (auto simp: InsiderThreatWorkflow_generate_workflow_def topologically_ordered_def Let_def
        new_step_def prereq_list_def split: sum.splits)

lemma builtin_topo:
  assumes "builtin_generators incident_type = Some generator"
    and "generator incident_data = Inr steps"
  shows "topologically_ordered steps \<and> distinct (map step_id steps)"
  using assms ransomware_topo exfiltration_topo credential_topo ddos_topo insider_topo
  by (auto simp: builtin_generators_def split: if_splits)

text \<open>
  Claim C1, as amended. \<^verbatim>\<open>create_workflow\<close> makes no cycle check. It fails with
  ValueError exactly when the incident type has no generator in the table, and passes on an
  exception of the generator; in both cases no workflow is stored. Otherwise it stores the
  generated steps as they are under the incident id. The five generators of the built-in
  table produce, for every report on which they return, steps with distinct ids whose list
  order is a topological order of the prerequisites, so their prerequisite graph is acyclic.
\<close>

theorem create_workflow_unchecked:
  "(workflow_generators engine incident_type = None \<longrightarrow>
      create_workflow engine incident_id incident_type incident_data = Inl ValueError) \<and>
   (\<forall>generator e. workflow_generators engine incident_type = Some generator \<and>
      generator incident_data = Inl e \<longrightarrow>
      create_workflow engine incident_id incident_type incident_data = Inl e) \<and>
   (\<forall>generator steps. workflow_generators engine incident_type = Some generator \<and>
      generator incident_data = Inr steps \<longrightarrow>
      create_workflow engine incident_id incident_type incident_data =
        Inr (steps, engine\<lparr> active_workflows := (active_workflows engine)(incident_id \<mapsto> steps) \<rparr>)) \<and>
   (\<forall>generator steps. builtin_generators incident_type = Some generator \<and>
      generator incident_data = Inr steps \<longrightarrow>
      topologically_ordered steps \<and> distinct (map step_id steps) \<and> acyclic (prereq_rel steps))"
proof (intro conjI allI impI)
  fix generator steps
  assume "builtin_generators incident_type = Some generator \<and> generator incident_data = Inr steps"
  then have t: "topologically_ordered steps \<and> distinct (map step_id steps)"
    using builtin_topo by blast
  then show "topologically_ordered steps" and "distinct (map step_id steps)" by blast+
  from t show "acyclic (prereq_rel steps)"
    using topologically_ordered_acyclic by blast
qed (simp_all add: create_workflow_def)

theorem create_workflow_unchecked_witness:
  "workflow_generators WorkflowEngine_init ''supply_chain_compromise'' = None \<and>
   create_workflow WorkflowEngine_init ''INC-003'' ''supply_chain_compromise'' ransomware_data
     = Inl ValueError \<and>
   builtin_generators ''malware_outbreak'' = Some RansomwareWorkflow_generate_workflow \<and>
   RansomwareWorkflow_generate_workflow ransomware_data = Inr demo_workflow \<and>
   create_workflow WorkflowEngine_init ''INC-001'' ''malware_outbreak'' ransomware_data
     = Inr (demo_workflow, demo_engine) \<and>
   topologically_ordered demo_workflow \<and> acyclic (prereq_rel demo_workflow)"
proof -
  have n: "workflow_generators WorkflowEngine_init ''supply_chain_compromise'' = None"
    by (simp add: WorkflowEngine_init_def builtin_generators_def)
  have g: "builtin_generators ''malware_outbreak'' = Some RansomwareWorkflow_generate_workflow"
    by (simp add: builtin_generators_def)
  then have g': "workflow_generators WorkflowEngine_init ''malware_outbreak'' =
      Some RansomwareWorkflow_generate_workflow"
    by (simp add: WorkflowEngine_init_def)
  have r: "RansomwareWorkflow_generate_workflow ransomware_data = Inr demo_workflow"
    by (simp add: demo_workflow_def RansomwareWorkflow_generate_workflow_def get_subdict_def
          dict_get_def ransomware_data_def Let_def)
  note thm1 = create_workflow_unchecked
     [of WorkflowEngine_init "''supply_chain_compromise''" "''INC-003''" ransomware_data]
  note thm2 = create_workflow_unchecked
     [of WorkflowEngine_init "''malware_outbreak''" "''INC-001''" ransomware_data]
  from thm1 n have 1: "create_workflow WorkflowEngine_init ''INC-003'' ''supply_chain_compromise''
      ransomware_data = Inl ValueError"
    by blast
  from thm2 g' r have "create_workflow WorkflowEngine_init ''INC-001'' ''malware_outbreak'' ransomware_data
     = Inr (demo_workflow, WorkflowEngine_init\<lparr> active_workflows :=
         (active_workflows WorkflowEngine_init)(''INC-001'' \<mapsto> demo_workflow) \<rparr>)"
    by blast
  then have 2: "create_workflow WorkflowEngine_init ''INC-001'' ''malware_outbreak'' ransomware_data
     = Inr (demo_workflow, demo_engine)"
    by (simp add: demo_engine_def WorkflowEngine_init_def)
  from thm2 g r have 3: "topologically_ordered demo_workflow \<and> acyclic (prereq_rel demo_workflow)"
    by blast
  from n 1 g r 2 3 show ?thesis by blast
qed

text \<open>
  Claim C1 as stated fails: for a generator that returns two steps each of which is the
  prerequisite of the other, \<^verbatim>\<open>create_workflow\<close> succeeds and stores the cyclic step set.
\<close>

theorem cyclic_workflow_counterexample:
  "\<not> acyclic (prereq_rel cyclic_steps) \<and>
   create_workflow cyclic_engine ''INC-002'' ''cyclic'' [] =
     Inr (cyclic_steps, cyclic_engine\<lparr> active_workflows := [''INC-002'' \<mapsto> cyclic_steps] \<rparr>)"
proof -
  have "(''A'', ''B'') \<in> prereq_rel cyclic_steps"
    unfolding prereq_rel_def cyclic_steps_def
    by (simp add: new_step_def prereq_list_def) 
       (rule exI [of _ "new_step ''A'' ''first'' ''waits for B'' ''collect_evidence'' [] (Some [''B'']) 10 False"],
        simp add: new_step_def)
  moreover have "(''B'', ''A'') \<in> prereq_rel cyclic_steps"
    unfolding prereq_rel_def cyclic_steps_def
    by (simp add: new_step_def prereq_list_def) 
       (rule exI [of _ "new_step ''B'' ''second'' ''waits for A'' ''collect_evidence'' [] (Some [''A'']) 10 False"],
        simp add: new_step_def)
  ultimately have "(''A'', ''A'') \<in> (prereq_rel cyclic_steps)\<^sup>+"
    by (meson trancl.intros)
  then have "\<not> acyclic (prereq_rel cyclic_steps)"
    by (auto simp: acyclic_def)
  moreover have "create_workflow cyclic_engine ''INC-002'' ''cyclic'' [] =
     Inr (cyclic_steps, cyclic_engine\<lparr> active_workflows := [''INC-002'' \<mapsto> cyclic_steps] \<rparr>)"
    by (simp add: create_workflow_def cyclic_engine_def WorkflowEngine_init_def)
  ultimately show ?thesis by blast
qed

section \<open>The response plan and its notification step\<close>

lemma then_err_Inr:
  "then_err m f = Inr y \<longleftrightarrow> (\<exists>x. m = Inr x \<and> f x = Inr y)"
  by (cases m) (auto simp: then_err_def)

lemma for_each_Inr:
  "for_each f xs = Inr ys \<Longrightarrow> y \<in> set ys \<Longrightarrow> \<exists>x \<in> set xs. f x = Inr y"
  by (induction xs arbitrary: ys) (auto split: sum.splits)

lemma isolate_steps_action:
  assumes "isolate_steps method systems = Inr steps"
  shows "\<forall>s \<in> set steps. action s = ISOLATE_SYSTEM"
  using assms by (auto simp: isolate_steps_def then_err_Inr new_response_step_def)

lemma block_steps_action:
  assumes "block_steps prefix ips = Inr steps"
  shows "\<forall>s \<in> set steps. action s = BLOCK_IP"
proof
  fix s assume s: "s \<in> set steps"
  from assms obtain xs where
    fe: "for_each (\<lambda>ip. then_err (py_replace ip CHR ''.'' CHR ''_'') (\<lambda>r.
           Inr (new_response_step BLOCK_IP ip [(''rule_name'', PStr (prefix @ r))]))) xs = Inr steps"
    unfolding block_steps_def then_err_Inr by blast
  from for_each_Inr [OF fe s] obtain ip r where
    "s = new_response_step BLOCK_IP ip [(''rule_name'', PStr (prefix @ r))]"
    unfolding then_err_Inr by auto
  then show "action s = BLOCK_IP" by (simp add: new_response_step_def)
qed

lemma ransomware_plan_action:
  assumes "ransomware_plan incident = Inr front"
  shows "\<forall>s \<in> set front. action s \<noteq> NOTIFY_STAKEHOLDERS"
proof -
  from assms obtain steps1 c2_ips steps2 xs where
    1: "isolate_steps ''edr_isolation'' (affected_systems_i incident) = Inr steps1"
    and 2: "block_steps ''BLOCK_C2_'' c2_ips = Inr steps2"
    and f: "front = steps1 @ steps2 @
            map (\<lambda>system. new_response_step COLLECT_EVIDENCE system
                   [(''evidence_types'', PList [PStr ''memory_dump'', PStr ''disk_image''])]) xs"
    unfolding ransomware_plan_def then_err_Inr by auto
  from isolate_steps_action [OF 1] block_steps_action [OF 2] show ?thesis
    unfolding f by (auto simp: new_response_step_def)
qed

lemma exfiltration_plan_action:
  assumes "exfiltration_plan incident = Inr front"
  shows "\<forall>s \<in> set front. action s \<noteq> NOTIFY_STAKEHOLDERS"
proof -
  from assms obtain external_ips steps1 steps2 user_account where
    1: "block_steps ''BLOCK_EXFIL_'' external_ips = Inr steps1"
    and 2: "isolate_steps ''network_isolation'' (affected_systems_i incident) = Inr steps2"
    and f: "front = steps1 @ steps2 @
            (if truthy user_account
             then [new_response_step DISABLE_ACCOUNT user_account
                     [(''domain'', PStr ''company.local'')]]
             else [])"
    unfolding exfiltration_plan_def then_err_Inr by auto
  from isolate_steps_action [OF 2] block_steps_action [OF 1] show ?thesis
    unfolding f by (auto simp: new_response_step_def)
qed

lemma credential_plan_action:
  assumes "credential_plan incident = Inr front"
  shows "\<forall>s \<in> set front. action s \<noteq> NOTIFY_STAKEHOLDERS"
proof -
  from assms obtain accounts source_ip steps2 where
    2: "(if truthy source_ip
        then then_err (py_replace source_ip CHR ''.'' CHR ''_'') (\<lambda>r.
               Inr [new_response_step BLOCK_IP source_ip
                      [(''rule_name'', PStr (''BLOCK_ATTACK_'' @ r))]])
        else Inr []) = Inr steps2"
    and f: "front = map (\<lambda>account. new_response_step DISABLE_ACCOUNT account
                   [(''domain'', PStr ''company.local'')]) accounts @ steps2"
    unfolding credential_plan_def then_err_Inr by auto
  from 2 have "\<forall>s \<in> set steps2. action s = BLOCK_IP"
    by (auto simp: then_err_Inr new_response_step_def split: if_splits)
  then show ?thesis
    unfolding f by (auto simp: new_response_step_def)
qed

lemma ddos_plan_action:
  assumes "ddos_plan incident = Inr front"
  shows "\<forall>s \<in> set front. action s \<noteq> NOTIFY_STAKEHOLDERS"
proof
  fix s assume s: "s \<in> set front"
  from assms obtain xs where
    fe: "for_each (\<lambda>source.
       then_err (py_replace source CHR ''.'' CHR ''_'') (\<lambda>r.
         Inr (new_response_step BLOCK_IP source
                [(''rule_name'',
                  PStr (''BLOCK_DDOS_'' @ map (\<lambda>c. if c = CHR ''/'' then CHR ''_'' else c) r))]))) xs
         = Inr front"
    unfolding ddos_plan_def then_err_Inr by blast
  from for_each_Inr [OF fe s] obtain source r where
    "s = new_response_step BLOCK_IP source
                [(''rule_name'',
                  PStr (''BLOCK_DDOS_'' @ map (\<lambda>c. if c = CHR ''/'' then CHR ''_'' else c) r))]"
    unfolding then_err_Inr by auto
  then show "action s \<noteq> NOTIFY_STAKEHOLDERS" by (simp add: new_response_step_def)
qed

lemma generate_response_plan_shape:
  assumes "generate_response_plan incident = Inr steps"
  shows "\<exists>front. steps = front @ [notify_step incident] \<and>
           (\<forall>s \<in> set front. action s \<noteq> NOTIFY_STAKEHOLDERS)"
proof -
  from assms obtain front where
    f: "(if incident_type_i incident = RANSOMWARE then ransomware_plan incident
        else if incident_type_i incident = DATA_EXFILTRATION then exfiltration_plan incident
        else if incident_type_i incident = CREDENTIAL_COMPROMISE then credential_plan incident
        else if incident_type_i incident = DDOS_ATTACK then ddos_plan incident
        else Inr []) = Inr front"
    and s: "steps = front @ [notify_step incident]"
    unfolding generate_response_plan_def then_err_Inr by blast
  have "\<forall>s \<in> set front. action s \<noteq> NOTIFY_STAKEHOLDERS"
    using f ransomware_plan_action exfiltration_plan_action credential_plan_action ddos_plan_action
    by (auto split: if_splits)
  with s show ?thesis by blast
qed

lemma builtin_no_notify:
  assumes "builtin_generators incident_type = Some generator"
    and "generator incident_data = Inr steps"
  shows "\<forall>s \<in> set steps. action_type s \<noteq> ''notify_stakeholders''"
  using assms
  by (auto simp: builtin_generators_def RansomwareWorkflow_generate_workflow_def
        DataExfiltrationWorkflow_generate_workflow_def
        CredentialCompromiseWorkflow_generate_workflow_def
        DDoSWorkflow_generate_workflow_def InsiderThreatWorkflow_generate_workflow_def
        Let_def new_step_def split: if_splits sum.splits)

text \<open>
  Claim C6, as amended. The plan built by \<^verbatim>\<open>_generate_response_plan\<close> ends, for every
  incident on which the function returns, with the notification step for the security
  team, and this is the only notification step of the plan; for the incident types without
  a branch (insider threat, supply chain) the plan consists of that step alone. Response
  steps have no prerequisites field. The workflow generators of the built-in table, in
  contrast, produce no step of action type notify\_stakeholders at all.
\<close>

theorem notification_step_appended:
  "(\<forall>steps. generate_response_plan incident = Inr steps \<longrightarrow>
      steps \<noteq> [] \<and> last steps = notify_step incident \<and>
      action (last steps) = NOTIFY_STAKEHOLDERS \<and>
      target (last steps) = PStr ''security_team'' \<and>
      length (filter (\<lambda>s. action s = NOTIFY_STAKEHOLDERS) steps) = 1) \<and>
   (incident_type_i incident = INSIDER_THREAT \<or> incident_type_i incident = SUPPLY_CHAIN \<longrightarrow>
      generate_response_plan incident = Inr [notify_step incident]) \<and>
   (\<forall>generator steps. builtin_generators incident_type = Some generator \<and>
      generator incident_data = Inr steps \<longrightarrow>
      (\<forall>s \<in> set steps. action_type s \<noteq> ''notify_stakeholders''))"
proof (intro conjI allI impI)
  fix steps assume "generate_response_plan incident = Inr steps"
  from generate_response_plan_shape [OF this] obtain front where
    s: "steps = front @ [notify_step incident]"
    and f: "\<forall>s \<in> set front. action s \<noteq> NOTIFY_STAKEHOLDERS"
    by blast
  from s show "steps \<noteq> []" and "last steps = notify_step incident" by simp_all
  from s show "action (last steps) = NOTIFY_STAKEHOLDERS"
    and "target (last steps) = PStr ''security_team''"
    by (simp_all add: notify_step_def new_response_step_def)
  from f have "filter (\<lambda>s. action s = NOTIFY_STAKEHOLDERS) front = []"
    by (simp add: filter_empty_conv)
  then show "length (filter (\<lambda>s. action s = NOTIFY_STAKEHOLDERS) steps) = 1"
    unfolding s by (simp add: notify_step_def new_response_step_def)
next
  assume "incident_type_i incident = INSIDER_THREAT \<or> incident_type_i incident = SUPPLY_CHAIN"
  then show "generate_response_plan incident = Inr [notify_step incident]"
    by (auto simp: generate_response_plan_def then_err_def)
next
  fix generator steps
  assume "builtin_generators incident_type = Some generator \<and> generator incident_data = Inr steps"
  then show "\<forall>s \<in> set steps. action_type s \<noteq> ''notify_stakeholders''"
    using builtin_no_notify by blast
qed

lemmas plan_defs = generate_response_plan_def ransomware_plan_def isolate_steps_def
  block_steps_def then_err_def val_get_def dict_get_def new_response_step_def notify_step_def
  demo_incident_def ransomware_data_def

theorem notification_step_appended_witness:
  "generate_response_plan demo_incident = Inr demo_plan \<and>
   map action demo_plan =
     [ISOLATE_SYSTEM, ISOLATE_SYSTEM, BLOCK_IP, BLOCK_IP, COLLECT_EVIDENCE, COLLECT_EVIDENCE,
      NOTIFY_STAKEHOLDERS] \<and>
   last demo_plan = notify_step demo_incident \<and>
   length (filter (\<lambda>s. action s = NOTIFY_STAKEHOLDERS) demo_plan) = 1"
proof -
  have g: "generate_response_plan demo_incident = Inr demo_plan"
    unfolding demo_plan_def by (simp add: plan_defs)
  have m: "map action demo_plan =
     [ISOLATE_SYSTEM, ISOLATE_SYSTEM, BLOCK_IP, BLOCK_IP, COLLECT_EVIDENCE, COLLECT_EVIDENCE,
      NOTIFY_STAKEHOLDERS]"
    unfolding demo_plan_def by (simp add: plan_defs)
  from notification_step_appended [of demo_incident] g
  have "last demo_plan = notify_step demo_incident \<and>
        length (filter (\<lambda>s. action s = NOTIFY_STAKEHOLDERS) demo_plan) = 1"
    by blast
  with g m show ?thesis by blast
qed

text \<open>
  Claim C6 as stated fails for the workflow generators: the ransomware workflow of the
  test report has no notification step, and its last step waits for RANSOM\_007.
\<close>

theorem workflow_without_notification_counterexample:
  "RansomwareWorkflow_generate_workflow ransomware_data = Inr demo_workflow \<and>
   map action_type demo_workflow =
     [''isolate_systems'', ''block_ips'', ''disable_services'', ''collect_evidence'',
      ''malware_analysis'', ''decryption_research'', ''backup_verification'', ''system_restore''] \<and>
   prerequisites (last demo_workflow) = Some [''RANSOM_007'']"
  by (simp add: demo_defs)

section \<open>Saving response actions\<close>

text \<open>
  Claim C7, as amended. \<^verbatim>\<open>_store_response_action\<close> is an append, not an upsert: every
  call that the database accepts adds exactly one row with a fresh \<^verbatim>\<open>action_id\<close> behind
  the existing rows, which stay as they are; the number of rows for the key of the saved
  step grows by one with each call, so saving a step twice leaves two rows for it. The call
  is accepted exactly when the target is a value the column can hold.
\<close>

theorem store_response_action_appends:
  "(\<not> sql_bindable (target step) \<longrightarrow>
      store_response_action db incident_id step now = Inl SqliteError) \<and>
   (sql_bindable (target step) \<longrightarrow>
      (\<exists>db'. store_response_action db incident_id step now = Inr db')) \<and>
   (\<forall>db'. store_response_action db incident_id step now = Inr db' \<longrightarrow>
      length (response_actions db') = length (response_actions db) + 1 \<and>
      butlast (response_actions db') = response_actions db \<and>
      row_key (last (response_actions db')) =
        (incident_id, ResponseAction_value (action step), target step) \<and>
      row_status (last (response_actions db')) = status_r step \<and>
      row_result (last (response_actions db')) = result_r step \<and>
      action_id (last (response_actions db')) = action_seq db' \<and>
      action_seq db < action_seq db' \<and>
      action_id (last (response_actions db')) \<notin> action_id ` set (response_actions db) \<and>
      length (rows_with_key db' (incident_id, ResponseAction_value (action step), target step)) =
        length (rows_with_key db (incident_id, ResponseAction_value (action step), target step)) + 1)"
proof -
  have m: "fold max (map action_id (response_actions db)) (action_seq db)
      = Max (set (action_seq db # map action_id (response_actions db)))"
    by (simp only: Max.set_eq_fold)
  have s: "action_seq db < next_action_id db"
    unfolding next_action_id_def m by (simp add: less_Suc_eq_le)
  have lt: "action_id r < next_action_id db" if "r \<in> set (response_actions db)" for r
    unfolding next_action_id_def m using that by (simp add: less_Suc_eq_le)
  have f: "next_action_id db \<notin> action_id ` set (response_actions db)"
  proof
    assume "next_action_id db \<in> action_id ` set (response_actions db)"
    then obtain r where "r \<in> set (response_actions db)" and "action_id r = next_action_id db"
      by auto
    with lt [of r] show False by simp
  qed
  show ?thesis
    using s f by (auto simp: store_response_action_def rows_with_key_def row_key_def)
qed

lemmas store_defs = store_response_action_def next_action_id_def saved_once_def saved_twice_def
  empty_db_def
  demo_notify_def new_response_step_def rows_with_key_def row_key_def

theorem store_response_action_appends_witness:
  "sql_bindable (target demo_notify) \<and>
   store_response_action empty_db ''INC-001'' demo_notify 5 = Inr saved_once \<and>
   length (response_actions saved_once) = 1 \<and>
   length (rows_with_key saved_once (''INC-001'', ''notify_stakeholders'', PStr ''security_team'')) = 1"
proof -
  have b: "sql_bindable (target demo_notify)"
    by (simp add: store_defs)
  have s: "store_response_action empty_db ''INC-001'' demo_notify 5 = Inr saved_once"
    by (simp add: store_defs)
  from store_response_action_appends [of demo_notify empty_db "''INC-001''" 5] s
  have "length (response_actions saved_once) = length (response_actions empty_db) + 1 \<and>
        length (rows_with_key saved_once
                  (''INC-001'', ResponseAction_value (action demo_notify), target demo_notify)) =
        length (rows_with_key empty_db
                  (''INC-001'', ResponseAction_value (action demo_notify), target demo_notify)) + 1"
    by blast
  then have "length (response_actions saved_once) = 1 \<and>
   length (rows_with_key saved_once (''INC-001'', ''notify_stakeholders'', PStr ''security_team'')) = 1"
    by (simp add: empty_db_def demo_notify_def new_response_step_def rows_with_key_def)
  with b s show ?thesis by blast
qed

text \<open>
  Claim C7 as stated fails: saving the same step of the same incident a second time
  changes the table, which then holds two rows with the same key.
\<close>

theorem save_step_twice_counterexample:
  "store_response_action empty_db ''INC-001'' demo_notify 5 = Inr saved_once \<and>
   store_response_action saved_once ''INC-001'' demo_notify 5 = Inr saved_twice \<and>
   saved_twice \<noteq> saved_once \<and>
   map row_key (response_actions saved_once) =
     [(''INC-001'', ''notify_stakeholders'', PStr ''security_team'')] \<and>
   map row_key (response_actions saved_twice) =
     [(''INC-001'', ''notify_stakeholders'', PStr ''security_team''),
      (''INC-001'', ''notify_stakeholders'', PStr ''security_team'')] \<and>
   map action_id (response_actions saved_twice) = [1, 2]"
  by (simp add: store_defs)

section \<open>Effect of an update on a workflow with distinct step ids\<close>

lemma mutate_first_split:
  "\<forall>x \<in> set front. \<not> P x \<Longrightarrow> P r \<Longrightarrow> mutate_first P f (front @ r # rear) = front @ f r # rear"
  by (induction front) auto

lemma distinct_split:
  assumes "distinct (map step_id w)" and "r \<in> set w"
  shows "\<exists>front rear. w = front @ r # rear \<and>
           (\<forall>x \<in> set front. step_id x \<noteq> step_id r) \<and> (\<forall>x \<in> set rear. step_id x \<noteq> step_id r)"
proof -
  from assms(2) obtain front rear where w: "w = front @ r # rear"
    by (auto dest: split_list)
  with assms(1) have "step_id r \<notin> step_id ` set front" "step_id r \<notin> step_id ` set rear"
    by auto
  then have "(\<forall>x \<in> set front. step_id x \<noteq> step_id r) \<and>
      (\<forall>x \<in> set rear. step_id x \<noteq> step_id r)"
    by (metis imageI)
  with w show ?thesis by blast
qed

lemma update_ready_step:
  assumes a: "active_workflows engine incident_id = Some w"
    and d: "distinct (map step_id w)"
    and r: "r \<in> set w"
  shows "\<exists>front rear. w = front @ r # rear \<and>
           (\<forall>x \<in> set front. step_id x \<noteq> step_id r) \<and> (\<forall>x \<in> set rear. step_id x \<noteq> step_id r) \<and>
           snd (update_step_status engine incident_id (step_id r) st res now) =
             engine\<lparr> active_workflows := (active_workflows engine)
               (incident_id \<mapsto> front @ set_step_status st res now r # rear) \<rparr>"
proof -
  from distinct_split [OF d r] obtain front rear where w: "w = front @ r # rear"
    and f: "\<forall>x \<in> set front. step_id x \<noteq> step_id r"
    and b: "\<forall>x \<in> set rear. step_id x \<noteq> step_id r"
    by blast
  from r have "step_id r \<in> step_id ` set w" by blast
  from update_step_status_success [OF a this, of st res now]
  have "snd (update_step_status engine incident_id (step_id r) st res now) =
      engine\<lparr> active_workflows := (active_workflows engine)
        (incident_id \<mapsto> mutate_first (\<lambda>s. step_id s = step_id r)
                             (set_step_status st res now) w) \<rparr>"
    by simp
  also have "mutate_first (\<lambda>s. step_id s = step_id r) (set_step_status st res now) w
      = front @ set_step_status st res now r # rear"
    unfolding w using f by (intro mutate_first_split) auto
  finally show ?thesis using w f b by blast
qed

lemma workflow_of_Some:
  "active_workflows engine incident_id = Some w \<Longrightarrow> workflow_of engine incident_id = w"
  by (simp add: workflow_of_def)

section \<open>The ready-step query returns exactly the ready steps\<close>

lemma prereq_completed_index:
  "prereq_completed workflow p \<longleftrightarrow>
     (\<exists>i < length workflow. step_id (workflow ! i) = p \<and> status (workflow ! i) = COMPLETED \<and>
        (\<forall>j < i. step_id (workflow ! j) \<noteq> p))"
proof
  assume "prereq_completed workflow p"
  then obtain t where "find (\<lambda>s. step_id s = p) workflow = Some t" and "status t = COMPLETED"
    by (auto simp: prereq_completed_def find_step_def split: option.splits)
  then show "\<exists>i < length workflow. step_id (workflow ! i) = p \<and> status (workflow ! i) = COMPLETED \<and>
        (\<forall>j < i. step_id (workflow ! j) \<noteq> p)"
    unfolding find_Some_iff by blast
next
  assume "\<exists>i < length workflow. step_id (workflow ! i) = p \<and> status (workflow ! i) = COMPLETED \<and>
        (\<forall>j < i. step_id (workflow ! j) \<noteq> p)"
  then obtain i where "i < length workflow" "step_id (workflow ! i) = p"
    "status (workflow ! i) = COMPLETED" "\<forall>j < i. step_id (workflow ! j) \<noteq> p"
    by blast
  then have "find (\<lambda>s. step_id s = p) workflow = Some (workflow ! i)"
    unfolding find_Some_iff by blast
  with \<open>status (workflow ! i) = COMPLETED\<close> show "prereq_completed workflow p"
    by (simp add: prereq_completed_def find_step_def)
qed

lemma prereq_completed_distinct:
  assumes "distinct (map step_id workflow)"
  shows "prereq_completed workflow p \<longleftrightarrow>
     (\<exists>t \<in> set workflow. step_id t = p \<and> status t = COMPLETED)"
proof
  assume "prereq_completed workflow p"
  then show "\<exists>t \<in> set workflow. step_id t = p \<and> status t = COMPLETED"
    unfolding prereq_completed_index by (metis nth_mem)
next
  assume "\<exists>t \<in> set workflow. step_id t = p \<and> status t = COMPLETED"
  then obtain t where "t \<in> set workflow" "step_id t = p" "status t = COMPLETED" by blast
  with find_step_distinct [OF assms, of t] show "prereq_completed workflow p"
    by (auto simp: prereq_completed_def)
qed

lemma ready_unfolded:
  "ready workflow s \<longleftrightarrow>
     status s = PENDING \<and>
     (\<forall>ps. prerequisites s = Some ps \<longrightarrow> (\<forall>p \<in> set ps. prereq_completed workflow p))"
  by (cases "prerequisites s") (auto simp: ready_def prereq_list_def list_all_iff)

text \<open>
  Claim C3. The ready-step query returns exactly the pending steps all of whose listed
  prerequisites are completed, in workflow order, where a prerequisite id stands for the
  first step of the workflow that carries it: a returned step is pending and lists no
  prerequisite that is missing or not completed, and every such step of the workflow is
  returned. With distinct step ids a prerequisite is completed when the step with that id
  is. An incident without a workflow has no ready step.
\<close>

theorem get_next_steps_exact:
  "(active_workflows engine incident_id = None \<longrightarrow> get_next_steps engine incident_id = []) \<and>
   (\<forall>workflow. active_workflows engine incident_id = Some workflow \<longrightarrow>
      get_next_steps engine incident_id =
        filter (\<lambda>s. status s = PENDING \<and>
                    (\<forall>ps. prerequisites s = Some ps \<longrightarrow>
                       (\<forall>p \<in> set ps.
                          \<exists>i < length workflow.
                            step_id (workflow ! i) = p \<and> status (workflow ! i) = COMPLETED \<and>
                            (\<forall>j < i. step_id (workflow ! j) \<noteq> p)))) workflow \<and>
      (distinct (map step_id workflow) \<longrightarrow>
         set (get_next_steps engine incident_id) =
           {s \<in> set workflow. status s = PENDING \<and>
              (\<forall>ps. prerequisites s = Some ps \<longrightarrow>
                 (\<forall>p \<in> set ps. \<exists>t \<in> set workflow. step_id t = p \<and> status t = COMPLETED))}))"
proof (intro conjI allI impI)
  show "get_next_steps engine incident_id = []" if "active_workflows engine incident_id = None"
    using that by (simp add: get_next_steps_filter)
next
  fix workflow assume a: "active_workflows engine incident_id = Some workflow"
  have "ready workflow =
      (\<lambda>s. status s = PENDING \<and>
           (\<forall>ps. prerequisites s = Some ps \<longrightarrow>
              (\<forall>p \<in> set ps.
                 \<exists>i < length workflow.
                   step_id (workflow ! i) = p \<and> status (workflow ! i) = COMPLETED \<and>
                   (\<forall>j < i. step_id (workflow ! j) \<noteq> p))))"
    by (simp add: fun_eq_iff ready_unfolded prereq_completed_index)
  with a show "get_next_steps engine incident_id =
        filter (\<lambda>s. status s = PENDING \<and>
                    (\<forall>ps. prerequisites s = Some ps \<longrightarrow>
                       (\<forall>p \<in> set ps.
                          \<exists>i < length workflow.
                            step_id (workflow ! i) = p \<and> status (workflow ! i) = COMPLETED \<and>
                            (\<forall>j < i. step_id (workflow ! j) \<noteq> p)))) workflow"
    by (simp add: get_next_steps_filter)
  assume d: "distinct (map step_id workflow)"
  show "set (get_next_steps engine incident_id) =
           {s \<in> set workflow. status s = PENDING \<and>
              (\<forall>ps. prerequisites s = Some ps \<longrightarrow>
                 (\<forall>p \<in> set ps. \<exists>t \<in> set workflow. step_id t = p \<and> status t = COMPLETED))}"
    by (simp add: get_next_steps_set [OF a] ready_unfolded prereq_completed_distinct [OF d])
qed

lemma demo_completed_workflow:
  "active_workflows demo_completed ''INC-001'' = Some (workflow_of demo_completed ''INC-001'')"
  by (simp add: run_defs demo_defs)

theorem get_next_steps_exact_witness:
  "active_workflows demo_completed ''INC-001'' = Some (workflow_of demo_completed ''INC-001'') \<and>
   distinct (map step_id (workflow_of demo_completed ''INC-001'')) \<and>
   map step_id (workflow_of demo_completed ''INC-001'') =
     [''RANSOM_001'', ''RANSOM_002'', ''RANSOM_003'', ''RANSOM_004'',
      ''RANSOM_005'', ''RANSOM_006'', ''RANSOM_007'', ''RANSOM_008''] \<and>
   map status (workflow_of demo_completed ''INC-001'') =
     [COMPLETED, PENDING, PENDING, PENDING, PENDING, PENDING, PENDING, PENDING] \<and>
   map prerequisites (workflow_of demo_completed ''INC-001'') =
     [None, None, None, Some [''RANSOM_001''], Some [''RANSOM_004''], Some [''RANSOM_005''],
      None, Some [''RANSOM_007'']] \<and>
   workflow_of demo_completed ''INC-001'' ! 3 \<in> set (get_next_steps demo_completed ''INC-001'') \<and>
   workflow_of demo_completed ''INC-001'' ! 4 \<notin> set (get_next_steps demo_completed ''INC-001'') \<and>
   workflow_of demo_completed ''INC-001'' ! 0 \<notin> set (get_next_steps demo_completed ''INC-001'') \<and>
   map step_id (get_next_steps demo_completed ''INC-001'') =
     [''RANSOM_002'', ''RANSOM_003'', ''RANSOM_004'', ''RANSOM_007'']"
proof -
  define w where "w = workflow_of demo_completed ''INC-001''"
  have a: "active_workflows demo_completed ''INC-001'' = Some w"
    unfolding w_def by (rule demo_completed_workflow)
  have ids: "map step_id w =
     [''RANSOM_001'', ''RANSOM_002'', ''RANSOM_003'', ''RANSOM_004'',
      ''RANSOM_005'', ''RANSOM_006'', ''RANSOM_007'', ''RANSOM_008'']"
    unfolding w_def by (simp add: run_defs demo_defs)
  have sts: "map status w =
     [COMPLETED, PENDING, PENDING, PENDING, PENDING, PENDING, PENDING, PENDING]"
    unfolding w_def by (simp add: run_defs demo_defs)
  have pre: "map prerequisites w =
     [None, None, None, Some [''RANSOM_001''], Some [''RANSOM_004''], Some [''RANSOM_005''],
      None, Some [''RANSOM_007'']]"
    unfolding w_def by (simp add: run_defs demo_defs)
  from ids have d: "distinct (map step_id w)" by simp
  have "length (map step_id w) = 8" unfolding ids by simp
  then have len: "length w = 8" by simp
  have nth: "step_id (w ! i) = map step_id w ! i" "status (w ! i) = map status w ! i"
    "prerequisites (w ! i) = map prerequisites w ! i" if "i < 8" for i
    using that len by simp_all
  from get_next_steps_exact [of demo_completed "''INC-001''"] a d
  have eq: "set (get_next_steps demo_completed ''INC-001'') =
      {s \<in> set w. status s = PENDING \<and>
         (\<forall>ps. prerequisites s = Some ps \<longrightarrow>
            (\<forall>p \<in> set ps. \<exists>t \<in> set w. step_id t = p \<and> status t = COMPLETED))}"
    by blast
  have m: "w ! i \<in> set w" if "i < 8" for i using that len by simp
  have "w ! 0 \<in> set w \<and> step_id (w ! 0) = ''RANSOM_001'' \<and> status (w ! 0) = COMPLETED"
    using m [of 0] nth [of 0] by (simp add: ids sts)
  then have c1: "\<exists>t \<in> set w. step_id t = ''RANSOM_001'' \<and> status t = COMPLETED" by blast
  have 3: "w ! 3 \<in> set (get_next_steps demo_completed ''INC-001'')"
    unfolding eq using m [of 3] nth [of 3] c1 by (simp add: ids sts pre)
  have z: "map (\<lambda>t. (step_id t, status t)) w = zip (map step_id w) (map status w)"
    by (induction w) simp_all
  have "(''RANSOM_004'', COMPLETED) \<notin> set (map (\<lambda>t. (step_id t, status t)) w)"
    unfolding z ids sts by simp
  then have p4: "\<not> (\<exists>t \<in> set w. step_id t = ''RANSOM_004'' \<and> status t = COMPLETED)"
    by force
  have 4: "w ! 4 \<notin> set (get_next_steps demo_completed ''INC-001'')"
    unfolding eq using nth [of 4] p4 by (simp add: ids sts pre)
  have 0: "w ! 0 \<notin> set (get_next_steps demo_completed ''INC-001'')"
    unfolding eq using nth [of 0] by (simp add: sts)
  have r: "map step_id (get_next_steps demo_completed ''INC-001'') =
     [''RANSOM_002'', ''RANSOM_003'', ''RANSOM_004'', ''RANSOM_007'']"
    by (simp add: get_next_steps_def run_defs demo_defs)
  show ?thesis
    unfolding w_def [symmetric]
    by (intro conjI) (rule a, rule d, rule ids, rule sts, rule pre, rule 3, rule 4, rule 0, rule r)
qed

section \<open>Classification is an ordered first match\<close>

lemma starts_with_iff: "starts_with s ext \<longleftrightarrow> (\<exists>v. s = ext @ v)"
  by (induction s ext rule: starts_with.induct) auto

lemma is_substring_iff: "is_substring ext s \<longleftrightarrow> occurs_in ext s"
proof (induction s)
  case Nil
  then show ?case by (auto simp: occurs_in_def)
next
  case (Cons c cs)
  have "occurs_in ext (c # cs) \<longleftrightarrow> (\<exists>v. c # cs = ext @ v) \<or> occurs_in ext cs"
  proof
    assume "occurs_in ext (c # cs)"
    then obtain u v where uv: "c # cs = u @ ext @ v" by (auto simp: occurs_in_def)
    show "(\<exists>v. c # cs = ext @ v) \<or> occurs_in ext cs"
    proof (cases u)
      case Nil
      with uv show ?thesis by auto
    next
      case (Cons a u')
      with uv have "cs = u' @ ext @ v" by simp
      then show ?thesis by (auto simp: occurs_in_def)
    qed
  next
    assume "(\<exists>v. c # cs = ext @ v) \<or> occurs_in ext cs"
    then show "occurs_in ext (c # cs)"
    proof
      assume "\<exists>v. c # cs = ext @ v"
      then obtain v where "c # cs = [] @ ext @ v" by auto
      then show ?thesis unfolding occurs_in_def by blast
    next
      assume "occurs_in ext cs"
      then obtain u v where "cs = u @ ext @ v" by (auto simp: occurs_in_def)
      then have "c # cs = (c # u) @ ext @ v" by simp
      then show ?thesis unfolding occurs_in_def by blast
    qed
  qed
  with Cons show ?case by (simp add: starts_with_iff)
qed

lemma marker_test:
  "list_ex (\<lambda>ext. is_substring ext s) [''.locked'', ''.encrypted'', ''.crypto''] \<longleftrightarrow> has_marker s"
  by (simp add: has_marker_def is_substring_iff)

lemma py_in_dict: "py_in key (PDict d) = Inr (key_present d key)"
  by (simp add: py_in_def key_present_def)

lemma in_either_dict: "in_either a b (PDict d) = Inr (key_present d a \<or> key_present d b)"
  by (simp add: in_either_def py_in_dict)

lemma determine_dict:
  assumes "get_subdict data ''indicators'' = Inr d"
  shows "determine_incident_type py_str data = Inr (first_match_spec py_str d)"
proof -
  from assms have i: "dict_get data ''indicators'' (PDict []) = PDict d"
    by (auto simp: get_subdict_def split: pyval.splits)
  show ?thesis
    unfolding determine_incident_type_def i Let_def marker_test
    by (simp add: in_either_dict then_err_def first_match_spec_def category_predicates_def)
qed

lemma determine_not_iterable:
  assumes "dict_get data ''indicators'' (PDict []) = v"
    and "v = PNone \<or> (\<exists>b. v = PBool b) \<or> (\<exists>i. v = PInt i)"
    and "\<not> has_marker (py_str v)"
  shows "determine_incident_type py_str data = Inl TypeError"
  using assms(2,3)
  unfolding determine_incident_type_def assms(1) Let_def marker_test
  by (auto simp: in_either_def py_in_def then_err_def)

lemma find_first_index:
  "i < length xs \<Longrightarrow> P (xs ! i) \<Longrightarrow> \<forall>j < i. \<not> P (xs ! j) \<Longrightarrow> find P xs = Some (xs ! i)"
  unfolding find_Some_iff by blast

text \<open>
  Claim C5, as amended. For every report whose indicators are a dictionary (or absent,
  which counts as the empty dictionary), the classification returns a type and does not
  raise: it is the type of the first predicate that holds in the ordered list ransomware,
  data exfiltration, credential compromise, DDoS, supply chain, and insider threat when
  none of them holds. For a report whose indicators are \<^verbatim>\<open>None\<close>, a truth value or a
  number, and whose rendering holds no ransomware marker, the classification raises
  TypeError.
\<close>

theorem classification_first_match:
  "(\<forall>d. get_subdict data ''indicators'' = Inr d \<longrightarrow>
     determine_incident_type py_str data = Inr (first_match_spec py_str d) \<and>
     map snd (category_predicates py_str) =
       [RANSOMWARE, DATA_EXFILTRATION, CREDENTIAL_COMPROMISE, DDOS_ATTACK, SUPPLY_CHAIN] \<and>
     (\<forall>i < length (category_predicates py_str).
        fst (category_predicates py_str ! i) d \<and>
        (\<forall>j < i. \<not> fst (category_predicates py_str ! j) d) \<longrightarrow>
        determine_incident_type py_str data = Inr (snd (category_predicates py_str ! i))) \<and>
     ((\<forall>pt \<in> set (category_predicates py_str). \<not> fst pt d) \<longrightarrow>
        determine_incident_type py_str data = Inr INSIDER_THREAT)) \<and>
   (\<forall>v. dict_get data ''indicators'' (PDict []) = v \<and>
      (v = PNone \<or> (\<exists>b. v = PBool b) \<or> (\<exists>i. v = PInt i)) \<and>
      \<not> has_marker (py_str v) \<longrightarrow>
      determine_incident_type py_str data = Inl TypeError)"
proof (intro allI impI conjI)
  fix d assume g: "get_subdict data ''indicators'' = Inr d"
  show r: "determine_incident_type py_str data = Inr (first_match_spec py_str d)"
    by (rule determine_dict [OF g])
  show "map snd (category_predicates py_str) =
       [RANSOMWARE, DATA_EXFILTRATION, CREDENTIAL_COMPROMISE, DDOS_ATTACK, SUPPLY_CHAIN]"
    by (simp add: category_predicates_def)
  {
    fix i
    assume i: "i < length (category_predicates py_str)"
      and h: "fst (category_predicates py_str ! i) d \<and>
        (\<forall>j < i. \<not> fst (category_predicates py_str ! j) d)"
    from i h have "find (\<lambda>pt. fst pt d) (category_predicates py_str)
        = Some (category_predicates py_str ! i)"
      by (intro find_first_index) auto
    then show "determine_incident_type py_str data = Inr (snd (category_predicates py_str ! i))"
      by (simp add: r first_match_spec_def)
  }
  {
    assume "\<forall>pt \<in> set (category_predicates py_str). \<not> fst pt d"
    then have "find (\<lambda>pt. fst pt d) (category_predicates py_str) = None"
      unfolding find_None_iff by blast
    then show "determine_incident_type py_str data = Inr INSIDER_THREAT"
      by (simp add: r first_match_spec_def)
  }
next
  fix v
  assume "dict_get data ''indicators'' (PDict []) = v \<and>
      (v = PNone \<or> (\<exists>b. v = PBool b) \<or> (\<exists>i. v = PInt i)) \<and> \<not> has_marker (py_str v)"
  then show "determine_incident_type py_str data = Inl TypeError"
    using determine_not_iterable by blast
qed

theorem classification_first_match_witness:
  "get_subdict ransomware_data ''indicators'' =
     Inr [(''c2_ips'', PList [PStr ''198.51.100.25'', PStr ''203.0.113.50'']),
          (''encrypted_file_extensions'', PList [PStr ''.locked'', PStr ''.encrypted''])] \<and>
   determine_incident_type str_of_demo ransomware_data = Inr RANSOMWARE \<and>
   get_subdict exfiltration_report ''indicators'' =
     Inr [(''external_ips'', PList [PStr ''203.0.113.7'']),
          (''compromised_accounts'', PList [PStr ''alice''])] \<and>
   determine_incident_type str_of_demo exfiltration_report = Inr DATA_EXFILTRATION \<and>
   get_subdict insider_report ''indicators'' = Inr [(''employee_id'', PStr ''E1042'')] \<and>
   determine_incident_type str_of_demo insider_report = Inr INSIDER_THREAT \<and>
   get_subdict [] ''indicators'' = Inr [] \<and>
   determine_incident_type str_of_demo [] = Inr INSIDER_THREAT"
proof -
  let ?r = "[(''c2_ips'', PList [PStr ''198.51.100.25'', PStr ''203.0.113.50'']),
          (''encrypted_file_extensions'', PList [PStr ''.locked'', PStr ''.encrypted''])]"
  let ?x = "[(''external_ips'', PList [PStr ''203.0.113.7'']),
          (''compromised_accounts'', PList [PStr ''alice''])]"
  let ?i = "[(''employee_id'', PStr ''E1042'')]"
  have g1: "get_subdict ransomware_data ''indicators'' = Inr ?r"
    by (simp add: get_subdict_def dict_get_def ransomware_data_def)
  have g2: "get_subdict exfiltration_report ''indicators'' = Inr ?x"
    by (simp add: get_subdict_def dict_get_def exfiltration_report_def)
  have g3: "get_subdict insider_report ''indicators'' = Inr ?i"
    by (simp add: get_subdict_def dict_get_def insider_report_def)
  have g4: "get_subdict [] ''indicators'' = Inr []"
    by (simp add: get_subdict_def dict_get_def)
  have s1: "first_match_spec str_of_demo ?r = RANSOMWARE"
    by (simp add: first_match_spec_def category_predicates_def has_marker_def key_present_def
          str_of_demo_def is_substring_iff [symmetric])
  have s2: "first_match_spec str_of_demo ?x = DATA_EXFILTRATION"
    by (simp add: first_match_spec_def category_predicates_def has_marker_def key_present_def
          str_of_demo_def is_substring_iff [symmetric])
  have s3: "first_match_spec str_of_demo ?i = INSIDER_THREAT"
    by (simp add: first_match_spec_def category_predicates_def has_marker_def key_present_def
          str_of_demo_def is_substring_iff [symmetric])
  have s4: "first_match_spec str_of_demo [] = INSIDER_THREAT"
    by (simp add: first_match_spec_def category_predicates_def has_marker_def key_present_def
          str_of_demo_def is_substring_iff [symmetric])
  from classification_first_match [of ransomware_data str_of_demo] g1 s1
  have 1: "determine_incident_type str_of_demo ransomware_data = Inr RANSOMWARE" by metis
  from classification_first_match [of exfiltration_report str_of_demo] g2 s2
  have 2: "determine_incident_type str_of_demo exfiltration_report = Inr DATA_EXFILTRATION" by metis
  from classification_first_match [of insider_report str_of_demo] g3 s3
  have 3: "determine_incident_type str_of_demo insider_report = Inr INSIDER_THREAT" by metis
  from classification_first_match [of "[]" str_of_demo] g4 s4
  have 4: "determine_incident_type str_of_demo [] = Inr INSIDER_THREAT" by metis
  show ?thesis
    by (intro conjI) (rule g1, rule 1, rule g2, rule 2, rule g3, rule 3, rule g4, rule 4)
qed

text \<open>
  Claim C5 as stated fails: a report whose indicators are \<^verbatim>\<open>None\<close> is not classified,
  the membership test on \<^verbatim>\<open>None\<close> raises TypeError.
\<close>

theorem classification_raises_counterexample:
  "dict_get null_report ''indicators'' (PDict []) = PNone \<and>
   str_of_demo PNone = ''None'' \<and>
   determine_incident_type str_of_demo null_report = Inl TypeError"
  by (simp add: determine_incident_type_def dict_get_def null_report_def str_of_demo_def
        in_either_def py_in_def then_err_def)

section \<open>The execution engine: order of starts\<close>

lemma prereq_list_set_step_status [simp]:
  "prereq_list (set_step_status st res now s) = prereq_list s"
  by (simp add: prereq_list_def)

lemma prereq_rel_swap:
  "prereq_rel (front @ set_step_status st res now r # rear) = prereq_rel (front @ r # rear)"
proof -
  have "prereq_rel w = (\<Union>s \<in> set w. (\<lambda>p. (step_id s, p)) ` set (prereq_list s))" for w
    by (auto simp: prereq_rel_def)
  then show ?thesis by simp
qed

lemma finite_prereq_rel: "finite (prereq_rel w)"
proof -
  have "prereq_rel w = (\<Union>s \<in> set w. (\<lambda>p. (step_id s, p)) ` set (prereq_list s))"
    by (auto simp: prereq_rel_def)
  then show ?thesis by simp
qed

lemma well_formed_swap:
  assumes "well_formed (front @ r # rear)"
  shows "well_formed (front @ set_step_status st res now r # rear)"
  using assms unfolding well_formed_def prereq_rel_swap by simp

lemma legal_not_completed: "legal w r st \<Longrightarrow> status r = PENDING \<or> status r = IN_PROGRESS"
  by (auto simp: legal_def ready_def skippable_def)

lemma remaining_work_swap:
  assumes "legal w r st"
  shows "remaining_work (front @ set_step_status st res now r # rear)
           < remaining_work (front @ r # rear)"
  using assms by (auto simp: legal_def ready_def skippable_def remaining_work_def)

lemma ordered_swap:
  assumes d: "distinct (map step_id (front @ r # rear))"
    and o: "ordered (front @ r # rear)"
    and l: "legal (front @ r # rear) r st"
  shows "ordered (front @ set_step_status st res now r # rear)"
proof -
  let ?w = "front @ r # rear"
  let ?r' = "set_step_status st res now r"
  let ?w' = "front @ ?r' # rear"
  from legal_not_completed [OF l] have nc: "status r \<noteq> COMPLETED" by auto
  have keep: "\<exists>t \<in> set ?w'. step_id t = p \<and> status t = COMPLETED"
    if "\<exists>t \<in> set ?w. step_id t = p \<and> status t = COMPLETED" for p
  proof -
    from that obtain t where t: "t \<in> set ?w" "step_id t = p" "status t = COMPLETED" by blast
    with nc have "t \<noteq> r" by auto
    with t(1) have "t \<in> set ?w'" by auto
    with t(2,3) show ?thesis by blast
  qed
  have own: "\<forall>p \<in> set (prereq_list r). \<exists>t \<in> set ?w. step_id t = p \<and> status t = COMPLETED"
    if "started ?r'"
  proof -
    from l consider (start) "ready ?w r" | (finish) "status r = IN_PROGRESS" | (skip) "st = SKIPPED"
      by (auto simp: legal_def)
    then show ?thesis
    proof cases
      case start
      then show ?thesis
        unfolding ready_def list_all_iff prereq_completed_distinct [OF d] by blast
    next
      case finish
      then have "started r" by (simp add: started_def)
      with o show ?thesis unfolding ordered_def by auto
    next
      case skip
      with that show ?thesis by (simp add: started_def)
    qed
  qed
  show ?thesis
    unfolding ordered_def
  proof (intro ballI impI)
    fix s p assume s: "s \<in> set ?w'" and st: "started s" and p: "p \<in> set (prereq_list s)"
    show "\<exists>t \<in> set ?w'. step_id t = p \<and> status t = COMPLETED"
    proof (cases "s = ?r'")
      case True
      with st own p have "\<exists>t \<in> set ?w. step_id t = p \<and> status t = COMPLETED" by simp
      then show ?thesis by (rule keep)
    next
      case False
      with s have "s \<in> set ?w" by auto
      with o st p have "\<exists>t \<in> set ?w. step_id t = p \<and> status t = COMPLETED"
        unfolding ordered_def by blast
      then show ?thesis by (rule keep)
    qed
  qed
qed

lemma event_effect:
  assumes a: "active_workflows engine incident_id = Some w"
    and d: "distinct (map step_id w)"
    and e: "enabled max_workers engine incident_id ev"
  shows "\<exists>front r rear st res. w = front @ r # rear \<and> legal w r st \<and>
           apply_event now engine incident_id ev =
             engine\<lparr> active_workflows := (active_workflows engine)
               (incident_id \<mapsto> front @ set_step_status st res now r # rear) \<rparr>"
proof -
  have step: "\<exists>front r rear st res. w = front @ r # rear \<and> legal w r st \<and>
           snd (update_step_status engine incident_id sid st' res' now) =
             engine\<lparr> active_workflows := (active_workflows engine)
               (incident_id \<mapsto> front @ set_step_status st res now r # rear) \<rparr>"
    if "r \<in> set w" "step_id r = sid" "legal w r st'" for r sid st' res'
    using update_ready_step [OF a d that(1), of st' res' now] that(2,3) by blast
  show ?thesis
  proof (cases ev)
    case (Start sid)
    with e obtain r where "r \<in> set (get_next_steps engine incident_id)" "step_id r = sid"
      by auto
    then have "r \<in> set w" "ready w r" by (simp_all add: get_next_steps_set [OF a])
    with \<open>step_id r = sid\<close> step [of r sid IN_PROGRESS None] Start show ?thesis
      by (simp add: legal_def)
  next
    case (Finish sid out)
    with e obtain r where "r \<in> set w" "status r = IN_PROGRESS" "step_id r = sid"
      by (auto simp: in_flight_def workflow_of_Some [OF a])
    moreover have "outcome_status out = COMPLETED \<or> outcome_status out = FAILED"
      by (cases out) simp_all
    ultimately show ?thesis
      using step [of r sid "outcome_status out" "outcome_result out"] Finish
      by (simp add: legal_def)
  next
    case (Skip sid)
    with e obtain r where "r \<in> set w" "skippable w r" "step_id r = sid"
      by (auto simp: workflow_of_Some [OF a])
    with step [of r sid SKIPPED "Some ''prerequisite not completed''"] Skip show ?thesis
      by (simp add: legal_def)
  qed
qed

lemma pending_actionable:
  assumes wf: "well_formed w" and nip: "in_flight w = []"
  shows "s \<in> set w \<Longrightarrow> status s = PENDING \<Longrightarrow>
         (\<exists>r \<in> set w. ready w r) \<or> (\<exists>r \<in> set w. skippable w r)"
proof -
  from wf have d: "distinct (map step_id w)"
    and res: "\<forall>s \<in> set w. set (prereq_list s) \<subseteq> step_id ` set w"
    and ac: "acyclic (prereq_rel w)"
    by (simp_all add: well_formed_def)
  from finite_prereq_rel ac have wfr: "wf ((prereq_rel w)\<inverse>)"
    by (rule finite_acyclic_wf_converse)
  have "\<forall>s \<in> set w. step_id s = x \<longrightarrow> status s = PENDING \<longrightarrow>
          (\<exists>r \<in> set w. ready w r) \<or> (\<exists>r \<in> set w. skippable w r)" for x
    using wfr
  proof (induction x rule: wf_induct_rule)
    case (less x)
    show ?case
    proof (intro ballI impI)
      fix s assume s: "s \<in> set w" "step_id s = x" "status s = PENDING"
      show "(\<exists>r \<in> set w. ready w r) \<or> (\<exists>r \<in> set w. skippable w r)"
      proof (cases "ready w s")
        case True
        with s(1) show ?thesis by blast
      next
        case False
        with s(3) obtain p where p: "p \<in> set (prereq_list s)" "\<not> prereq_completed w p"
          by (auto simp: ready_def list_all_iff)
        from p(1) res s(1) obtain t where t: "t \<in> set w" "step_id t = p" by auto
        from find_step_distinct [OF d t(1)] t(2) have f: "find_step w p = Some t" by simp
        with p(2) have tc: "status t \<noteq> COMPLETED" by (simp add: prereq_completed_def)
        from nip t(1) have ti: "status t \<noteq> IN_PROGRESS"
          by (auto simp: in_flight_def filter_empty_conv)
        show ?thesis
        proof (cases "status t = PENDING")
          case True
          from s(1,2) p(1) have "(x, p) \<in> prereq_rel w" by (auto simp: prereq_rel_def)
          then have "(p, x) \<in> (prereq_rel w)\<inverse>" by simp
          from less [OF this] t True show ?thesis by blast
        next
          case False
          with tc ti have "status t = FAILED \<or> status t = SKIPPED"
            by (cases "status t") simp_all
          with f have "prereq_lost w p" by (simp add: prereq_lost_def)
          with p(1) s(3) have "skippable w s" by (auto simp: skippable_def list_ex_iff)
          with s(1) show ?thesis by blast
        qed
      qed
    qed
  qed
  then show "s \<in> set w \<Longrightarrow> status s = PENDING \<Longrightarrow>
         (\<exists>r \<in> set w. ready w r) \<or> (\<exists>r \<in> set w. skippable w r)"
    by blast
qed

lemma enabled_events_nonempty:
  assumes wf: "well_formed w" and a: "active_workflows engine incident_id = Some w"
    and nd: "\<not> workflow_done engine incident_id" and mw: "0 < max_workers"
  shows "enabled_events max_workers dispatch engine incident_id \<noteq> []"
proof (cases "in_flight w = []")
  case False
  then show ?thesis by (simp add: enabled_events_def workflow_of_Some [OF a])
next
  case True
  from nd obtain s where s: "s \<in> set w" "status s = PENDING \<or> status s = IN_PROGRESS"
    by (auto simp: workflow_done_def workflow_of_Some [OF a] list_all_iff)
  with True have "status s = PENDING" by (auto simp: in_flight_def filter_empty_conv)
  from pending_actionable [OF wf True s(1) this]
  have "get_next_steps engine incident_id \<noteq> [] \<or> filter (skippable w) w \<noteq> []"
    by (auto simp: get_next_steps_filter a filter_empty_conv)
  with True mw show ?thesis by (auto simp: enabled_events_def workflow_of_Some [OF a])
qed

lemma enabled_events_sound:
  "ev \<in> set (enabled_events max_workers dispatch engine incident_id) \<Longrightarrow>
   enabled max_workers engine incident_id ev"
  by (auto simp: enabled_events_def split: if_splits)

lemma remaining_work_bound: "remaining_work w \<le> 2 * length w"
proof -
  have "length (filter (\<lambda>s. status s = PENDING) w) + length (filter (\<lambda>s. status s = IN_PROGRESS) w)
      \<le> length w"
    by (induction w) auto
  then show ?thesis by (simp add: remaining_work_def)
qed

lemma run_workflow_ends:
  assumes p: "\<forall>evs. evs \<noteq> [] \<longrightarrow> pick evs \<in> set evs" and mw: "0 < max_workers"
  shows "active_workflows engine incident_id = Some w \<Longrightarrow> well_formed w \<Longrightarrow>
         remaining_work w \<le> fuel \<Longrightarrow>
         \<exists>engine'. run_workflow fuel pick dispatch max_workers now engine incident_id = Some engine' \<and>
           workflow_done engine' incident_id \<and>
           map step_id (workflow_of engine' incident_id) = map step_id w"
proof (induction fuel arbitrary: engine w)
  case 0
  then have "\<forall>s \<in> set w. status s \<noteq> PENDING \<and> status s \<noteq> IN_PROGRESS"
    by (auto simp: remaining_work_def filter_empty_conv)
  then have "workflow_done engine incident_id"
    by (simp add: workflow_done_def workflow_of_Some [OF "0.prems"(1)] list_all_iff)
  then show ?case by (simp add: workflow_of_Some [OF "0.prems"(1)])
next
  case (Suc n)
  note a = Suc.prems(1) and wf = Suc.prems(2)
  show ?case
  proof (cases "workflow_done engine incident_id")
    case True
    then show ?thesis by (simp add: workflow_of_Some [OF a])
  next
    case False
    from enabled_events_nonempty [OF wf a False mw, of dispatch]
    obtain ev evs where evs: "enabled_events max_workers dispatch engine incident_id = ev # evs"
      by (cases "enabled_events max_workers dispatch engine incident_id") auto
    define chosen where "chosen = pick (ev # evs)"
    from p have "chosen \<in> set (ev # evs)" unfolding chosen_def by blast
    then have en: "enabled max_workers engine incident_id chosen"
      using enabled_events_sound [of chosen max_workers dispatch engine incident_id] evs by simp
    from wf have d: "distinct (map step_id w)" by (simp add: well_formed_def)
    from event_effect [OF a d en, of now] obtain front r rear st res where
      w: "w = front @ r # rear" and l: "legal w r st"
      and ap: "apply_event now engine incident_id chosen =
             engine\<lparr> active_workflows := (active_workflows engine)
               (incident_id \<mapsto> front @ set_step_status st res now r # rear) \<rparr>"
      by blast
    define engine1 where "engine1 = apply_event now engine incident_id chosen"
    define w1 where "w1 = front @ set_step_status st res now r # rear"
    from ap have a1: "active_workflows engine1 incident_id = Some w1"
      by (simp add: engine1_def w1_def)
    from wf have wf1: "well_formed w1" unfolding w w1_def by (rule well_formed_swap)
    from remaining_work_swap [OF l, of front res now rear] Suc.prems(3)
    have "remaining_work w1 \<le> n" unfolding w w1_def by simp
    from Suc.IH [OF a1 wf1 this] obtain engine' where
      "run_workflow n pick dispatch max_workers now engine1 incident_id = Some engine'"
      "workflow_done engine' incident_id"
      "map step_id (workflow_of engine' incident_id) = map step_id w1"
      by blast
    moreover have "map step_id w1 = map step_id w" unfolding w w1_def by simp
    ultimately show ?thesis
      using False evs by (simp add: engine1_def chosen_def)
  qed
qed

lemma exec_ordered:
  "active_workflows engine incident_id = Some w \<Longrightarrow> distinct (map step_id w) \<Longrightarrow> ordered w \<Longrightarrow>
   exec max_workers now engine incident_id evs = Some engine' \<Longrightarrow>
   \<exists>w'. active_workflows engine' incident_id = Some w' \<and> distinct (map step_id w') \<and>
         ordered w' \<and> map step_id w' = map step_id w"
proof (induction evs arbitrary: engine w)
  case Nil
  then show ?case by simp
next
  case (Cons ev evs)
  note a = Cons.prems(1) and d = Cons.prems(2) and o = Cons.prems(3)
  from Cons.prems(4) have en: "enabled max_workers engine incident_id ev"
    and ex: "exec max_workers now (apply_event now engine incident_id ev) incident_id evs = Some engine'"
    by (simp_all split: if_splits)
  from event_effect [OF a d en, of now] obtain front r rear st res where
    w: "w = front @ r # rear" and l: "legal w r st"
    and ap: "apply_event now engine incident_id ev =
           engine\<lparr> active_workflows := (active_workflows engine)
             (incident_id \<mapsto> front @ set_step_status st res now r # rear) \<rparr>"
    by blast
  define w1 where "w1 = front @ set_step_status st res now r # rear"
  from ap have a1: "active_workflows (apply_event now engine incident_id ev) incident_id = Some w1"
    by (simp add: w1_def)
  have ids: "map step_id w1 = map step_id w" unfolding w w1_def by simp
  with d have d1: "distinct (map step_id w1)" by simp
  from ordered_swap [OF d [unfolded w] o [unfolded w] l [unfolded w], of res now]
  have o1: "ordered w1" unfolding w1_def .
  from Cons.IH [OF a1 d1 o1 ex] ids show ?case by simp
qed

lemma start_both:
  assumes a: "active_workflows engine incident_id = Some w"
    and d: "distinct (map step_id w)"
    and ra: "x \<in> set (get_next_steps engine incident_id)"
    and rb: "y \<in> set (get_next_steps engine incident_id)"
    and ne: "step_id x \<noteq> step_id y"
    and free: "length (in_flight w) + 2 \<le> max_workers"
  shows "\<exists>e. exec max_workers now engine incident_id [Start (step_id x), Start (step_id y)] = Some e \<and>
           (\<exists>s \<in> set (workflow_of e incident_id). step_id s = step_id x \<and> status s = IN_PROGRESS) \<and>
           (\<exists>s \<in> set (workflow_of e incident_id). step_id s = step_id y \<and> status s = IN_PROGRESS)"
proof -
  from ra rb have xw: "x \<in> set w" and xr: "ready w x" and yw: "y \<in> set w" and yr: "ready w y"
    by (simp_all add: get_next_steps_set [OF a])
  from xr yr have xp: "status x = PENDING" and yp: "status y = PENDING"
    by (simp_all add: ready_def)
  from ra free have en1: "enabled max_workers engine incident_id (Start (step_id x))"
    by (simp add: workflow_of_Some [OF a])
  let ?x' = "set_step_status IN_PROGRESS None now x"
  from update_ready_step [OF a d xw, of IN_PROGRESS None now] obtain front rear where
    w: "w = front @ x # rear"
    and e1: "snd (update_step_status engine incident_id (step_id x) IN_PROGRESS None now) =
             engine\<lparr> active_workflows := (active_workflows engine)
               (incident_id \<mapsto> front @ ?x' # rear) \<rparr>"
    by blast
  define engine1 where "engine1 = apply_event now engine incident_id (Start (step_id x))"
  define w1 where "w1 = front @ ?x' # rear"
  from e1 have a1: "active_workflows engine1 incident_id = Some w1"
    by (simp add: engine1_def w1_def)
  have ids: "map step_id w1 = map step_id w" unfolding w w1_def by simp
  with d have d1: "distinct (map step_id w1)" by simp
  from yw ne have yw1: "y \<in> set w1" unfolding w w1_def by auto
  have "prereq_completed w1 p" if "p \<in> set (prereq_list y)" for p
  proof -
    from yr that have "prereq_completed w p" by (simp add: ready_def list_all_iff)
    then obtain t where t: "t \<in> set w" "step_id t = p" "status t = COMPLETED"
      unfolding prereq_completed_distinct [OF d] by blast
    with xp have "t \<noteq> x" by auto
    with t(1) have "t \<in> set w1" unfolding w w1_def by auto
    with t(2,3) show ?thesis unfolding prereq_completed_distinct [OF d1] by blast
  qed
  with yp have yr1: "ready w1 y" by (simp add: ready_def list_all_iff)
  from xp have "length (in_flight w1) = length (in_flight w) + 1"
    unfolding w w1_def by (simp add: in_flight_def)
  with free yw1 yr1 have en2: "enabled max_workers engine1 incident_id (Start (step_id y))"
    by (simp add: workflow_of_Some [OF a1] get_next_steps_set [OF a1])
  let ?y' = "set_step_status IN_PROGRESS None now y"
  from update_ready_step [OF a1 d1 yw1, of IN_PROGRESS None now] obtain front2 rear2 where
    w1s: "w1 = front2 @ y # rear2"
    and e2: "snd (update_step_status engine1 incident_id (step_id y) IN_PROGRESS None now) =
             engine1\<lparr> active_workflows := (active_workflows engine1)
               (incident_id \<mapsto> front2 @ ?y' # rear2) \<rparr>"
    by blast
  define engine2 where "engine2 = apply_event now engine1 incident_id (Start (step_id y))"
  from e2 have a2: "active_workflows engine2 incident_id = Some (front2 @ ?y' # rear2)"
    by (simp add: engine2_def)
  have "?x' \<in> set w1" unfolding w1_def by simp
  moreover have "?x' \<noteq> y" using ne by auto
  ultimately have "?x' \<in> set (front2 @ ?y' # rear2)" unfolding w1s by auto
  then have 1: "\<exists>s \<in> set (workflow_of engine2 incident_id).
      step_id s = step_id x \<and> status s = IN_PROGRESS"
    unfolding workflow_of_Some [OF a2] by (intro bexI [of _ ?x']) simp_all
  have 2: "\<exists>s \<in> set (workflow_of engine2 incident_id).
      step_id s = step_id y \<and> status s = IN_PROGRESS"
    unfolding workflow_of_Some [OF a2] by (intro bexI [of _ ?y']) simp_all
  from en1 en2 have "exec max_workers now engine incident_id [Start (step_id x), Start (step_id y)]
      = Some engine2"
    by (simp add: engine1_def engine2_def)
  with 1 2 show ?thesis by blast
qed

text \<open>
  Claim C4. In every execution of a workflow with distinct step ids that begins with all
  steps pending, whatever events happen and in whatever order, every step that has started
  (that is in\_progress, completed or failed) has all the prerequisites it lists
  completed: no step is in\_progress before all its prerequisites are completed, which is
  a terminal status. Steps that are ready together are not ordered by the engine: with
  two free workers either of two such steps can start first, and both are then
  in\_progress at the same time.
\<close>

theorem steps_start_after_prerequisites:
  "active_workflows engine incident_id = Some w \<and> distinct (map step_id w) \<and>
   list_all (\<lambda>s. status s = PENDING) w \<longrightarrow>
     (\<forall>evs engine'. exec max_workers now engine incident_id evs = Some engine' \<longrightarrow>
        (\<forall>s \<in> set (workflow_of engine' incident_id).
           status s = IN_PROGRESS \<or> status s = COMPLETED \<or> status s = FAILED \<longrightarrow>
           (\<forall>p \<in> set (prereq_list s).
              \<exists>t \<in> set (workflow_of engine' incident_id). step_id t = p \<and> status t = COMPLETED)) \<and>
        (\<forall>x y. x \<in> set (get_next_steps engine' incident_id) \<and>
               y \<in> set (get_next_steps engine' incident_id) \<and> step_id x \<noteq> step_id y \<and>
               length (in_flight (workflow_of engine' incident_id)) + 2 \<le> max_workers \<longrightarrow>
           (\<exists>e. exec max_workers now engine' incident_id [Start (step_id x), Start (step_id y)]
                   = Some e \<and>
              (\<exists>s \<in> set (workflow_of e incident_id). step_id s = step_id x \<and> status s = IN_PROGRESS) \<and>
              (\<exists>s \<in> set (workflow_of e incident_id). step_id s = step_id y \<and> status s = IN_PROGRESS)) \<and>
           (\<exists>e. exec max_workers now engine' incident_id [Start (step_id y), Start (step_id x)]
                   = Some e \<and>
              (\<exists>s \<in> set (workflow_of e incident_id). step_id s = step_id x \<and> status s = IN_PROGRESS) \<and>
              (\<exists>s \<in> set (workflow_of e incident_id). step_id s = step_id y \<and> status s = IN_PROGRESS))))"
proof (intro impI allI)
  fix evs engine'
  assume h: "active_workflows engine incident_id = Some w \<and> distinct (map step_id w) \<and>
   list_all (\<lambda>s. status s = PENDING) w"
    and ex: "exec max_workers now engine incident_id evs = Some engine'"
  from h have a: "active_workflows engine incident_id = Some w"
    and d: "distinct (map step_id w)" by blast+
  from h have o: "ordered w" by (auto simp: ordered_def started_def list_all_iff)
  from exec_ordered [OF a d o ex] obtain w' where
    a': "active_workflows engine' incident_id = Some w'" and d': "distinct (map step_id w')"
    and o': "ordered w'"
    by blast
  have 1: "\<forall>s \<in> set (workflow_of engine' incident_id).
           status s = IN_PROGRESS \<or> status s = COMPLETED \<or> status s = FAILED \<longrightarrow>
           (\<forall>p \<in> set (prereq_list s).
              \<exists>t \<in> set (workflow_of engine' incident_id). step_id t = p \<and> status t = COMPLETED)"
    using o' unfolding workflow_of_Some [OF a'] ordered_def started_def by blast
  have 2: "\<forall>x y. x \<in> set (get_next_steps engine' incident_id) \<and>
               y \<in> set (get_next_steps engine' incident_id) \<and> step_id x \<noteq> step_id y \<and>
               length (in_flight (workflow_of engine' incident_id)) + 2 \<le> max_workers \<longrightarrow>
           (\<exists>e. exec max_workers now engine' incident_id [Start (step_id x), Start (step_id y)]
                   = Some e \<and>
              (\<exists>s \<in> set (workflow_of e incident_id). step_id s = step_id x \<and> status s = IN_PROGRESS) \<and>
              (\<exists>s \<in> set (workflow_of e incident_id). step_id s = step_id y \<and> status s = IN_PROGRESS)) \<and>
           (\<exists>e. exec max_workers now engine' incident_id [Start (step_id y), Start (step_id x)]
                   = Some e \<and>
              (\<exists>s \<in> set (workflow_of e incident_id). step_id s = step_id x \<and> status s = IN_PROGRESS) \<and>
              (\<exists>s \<in> set (workflow_of e incident_id). step_id s = step_id y \<and> status s = IN_PROGRESS))"
  proof (intro allI impI)
    fix x y
    assume q: "x \<in> set (get_next_steps engine' incident_id) \<and>
               y \<in> set (get_next_steps engine' incident_id) \<and> step_id x \<noteq> step_id y \<and>
               length (in_flight (workflow_of engine' incident_id)) + 2 \<le> max_workers"
    then have free: "length (in_flight w') + 2 \<le> max_workers"
      by (simp add: workflow_of_Some [OF a'])
    from q have x: "x \<in> set (get_next_steps engine' incident_id)"
      and y: "y \<in> set (get_next_steps engine' incident_id)"
      and ne: "step_id x \<noteq> step_id y" by blast+
    from ne have ne': "step_id y \<noteq> step_id x" by simp
    from start_both [OF a' d' x y ne free, of now] start_both [OF a' d' y x ne' free, of now]
    show "(\<exists>e. exec max_workers now engine' incident_id [Start (step_id x), Start (step_id y)]
                   = Some e \<and>
              (\<exists>s \<in> set (workflow_of e incident_id). step_id s = step_id x \<and> status s = IN_PROGRESS) \<and>
              (\<exists>s \<in> set (workflow_of e incident_id). step_id s = step_id y \<and> status s = IN_PROGRESS)) \<and>
           (\<exists>e. exec max_workers now engine' incident_id [Start (step_id y), Start (step_id x)]
                   = Some e \<and>
              (\<exists>s \<in> set (workflow_of e incident_id). step_id s = step_id x \<and> status s = IN_PROGRESS) \<and>
              (\<exists>s \<in> set (workflow_of e incident_id). step_id s = step_id y \<and> status s = IN_PROGRESS))"
      by blast
  qed
  from 1 2 show "(\<forall>s \<in> set (workflow_of engine' incident_id).
           status s = IN_PROGRESS \<or> status s = COMPLETED \<or> status s = FAILED \<longrightarrow>
           (\<forall>p \<in> set (prereq_list s).
              \<exists>t \<in> set (workflow_of engine' incident_id). step_id t = p \<and> status t = COMPLETED)) \<and>
        (\<forall>x y. x \<in> set (get_next_steps engine' incident_id) \<and>
               y \<in> set (get_next_steps engine' incident_id) \<and> step_id x \<noteq> step_id y \<and>
               length (in_flight (workflow_of engine' incident_id)) + 2 \<le> max_workers \<longrightarrow>
           (\<exists>e. exec max_workers now engine' incident_id [Start (step_id x), Start (step_id y)]
                   = Some e \<and>
              (\<exists>s \<in> set (workflow_of e incident_id). step_id s = step_id x \<and> status s = IN_PROGRESS) \<and>
              (\<exists>s \<in> set (workflow_of e incident_id). step_id s = step_id y \<and> status s = IN_PROGRESS)) \<and>
           (\<exists>e. exec max_workers now engine' incident_id [Start (step_id y), Start (step_id x)]
                   = Some e \<and>
              (\<exists>s \<in> set (workflow_of e incident_id). step_id s = step_id x \<and> status s = IN_PROGRESS) \<and>
              (\<exists>s \<in> set (workflow_of e incident_id). step_id s = step_id y \<and> status s = IN_PROGRESS)))"
    by (rule conjI)
qed

lemma demo_pending: "list_all (\<lambda>s. status s = PENDING) demo_workflow"
  by (simp add: demo_defs)

lemma demo_distinct: "distinct (map step_id demo_workflow)"
  by (simp add: demo_defs)

theorem steps_start_after_prerequisites_witness:
  "active_workflows demo_engine ''INC-001'' = Some demo_workflow \<and>
   distinct (map step_id demo_workflow) \<and>
   list_all (\<lambda>s. status s = PENDING) demo_workflow \<and>
   exec 5 1 demo_engine ''INC-001'' demo_events = Some demo_exec \<and>
   map status (workflow_of demo_exec ''INC-001'') =
     [COMPLETED, IN_PROGRESS, PENDING, IN_PROGRESS, PENDING, PENDING, PENDING, PENDING] \<and>
   ordered (workflow_of demo_exec ''INC-001'') \<and>
   exec 5 1 demo_engine ''INC-001'' [Start ''RANSOM_004''] = None \<and>
   (\<exists>e. exec 5 1 demo_engine ''INC-001'' [Start ''RANSOM_002'', Start ''RANSOM_001''] = Some e \<and>
      (\<exists>s \<in> set (workflow_of e ''INC-001''). step_id s = ''RANSOM_001'' \<and> status s = IN_PROGRESS) \<and>
      (\<exists>s \<in> set (workflow_of e ''INC-001''). step_id s = ''RANSOM_002'' \<and> status s = IN_PROGRESS))"
proof -
  note inst = steps_start_after_prerequisites [of demo_engine "''INC-001''" demo_workflow 5 1]
  have ev: "map_option (\<lambda>e. map status (workflow_of e ''INC-001''))
      (exec 5 1 demo_engine ''INC-001'' demo_events) =
      Some [COMPLETED, IN_PROGRESS, PENDING, IN_PROGRESS, PENDING, PENDING, PENDING, PENDING]"
    by code_simp
  then obtain e where e: "exec 5 1 demo_engine ''INC-001'' demo_events = Some e" by auto
  then have ex: "exec 5 1 demo_engine ''INC-001'' demo_events = Some demo_exec"
    by (simp add: demo_exec_def)
  with ev have st: "map status (workflow_of demo_exec ''INC-001'') =
     [COMPLETED, IN_PROGRESS, PENDING, IN_PROGRESS, PENDING, PENDING, PENDING, PENDING]"
    by simp
  from inst demo_active demo_distinct demo_pending ex
  have "\<forall>s \<in> set (workflow_of demo_exec ''INC-001'').
           status s = IN_PROGRESS \<or> status s = COMPLETED \<or> status s = FAILED \<longrightarrow>
           (\<forall>p \<in> set (prereq_list s).
              \<exists>t \<in> set (workflow_of demo_exec ''INC-001''). step_id t = p \<and> status t = COMPLETED)"
    by blast
  then have o: "ordered (workflow_of demo_exec ''INC-001'')"
    by (simp add: ordered_def started_def)
  have early: "exec 5 1 demo_engine ''INC-001'' [Start ''RANSOM_004''] = None"
    by code_simp
  have e0: "exec 5 1 demo_engine ''INC-001'' [] = Some demo_engine" by simp
  have r: "demo_workflow ! 1 \<in> set (get_next_steps demo_engine ''INC-001'')"
    "demo_workflow ! 0 \<in> set (get_next_steps demo_engine ''INC-001'')"
    by code_simp+
  have i: "step_id (demo_workflow ! 1) = ''RANSOM_002''" "step_id (demo_workflow ! 0) = ''RANSOM_001''"
    by code_simp+
  have fr: "length (in_flight (workflow_of demo_engine ''INC-001'')) + 2 \<le> 5"
    by code_simp
  from i have ne: "step_id (demo_workflow ! 1) \<noteq> step_id (demo_workflow ! 0)" by simp
  from inst demo_active demo_distinct demo_pending e0 r ne fr
  have "\<exists>e. exec 5 1 demo_engine ''INC-001''
            [Start (step_id (demo_workflow ! 1)), Start (step_id (demo_workflow ! 0))] = Some e \<and>
      (\<exists>s \<in> set (workflow_of e ''INC-001'').
         step_id s = step_id (demo_workflow ! 1) \<and> status s = IN_PROGRESS) \<and>
      (\<exists>s \<in> set (workflow_of e ''INC-001'').
         step_id s = step_id (demo_workflow ! 0) \<and> status s = IN_PROGRESS)"
    by blast
  then have both: "\<exists>e. exec 5 1 demo_engine ''INC-001'' [Start ''RANSOM_002'', Start ''RANSOM_001'']
      = Some e \<and>
      (\<exists>s \<in> set (workflow_of e ''INC-001''). step_id s = ''RANSOM_001'' \<and> status s = IN_PROGRESS) \<and>
      (\<exists>s \<in> set (workflow_of e ''INC-001''). step_id s = ''RANSOM_002'' \<and> status s = IN_PROGRESS)"
    unfolding i by blast
  show ?thesis
    by (intro conjI) (rule demo_active, rule demo_distinct, rule demo_pending, rule ex, rule st,
      rule o, rule early, rule both)
qed

section \<open>The execution engine: termination\<close>

text \<open>
  Claim C9. For every workflow that keeps the invariants of the data model (distinct
  step ids, every prerequisite the id of a step of the workflow, an acyclic prerequisite
  graph), for every dispatcher and every order in which the events are taken, and with at
  least one worker, the loop ends after at most two events per step, in a configuration
  in which every step is completed, failed or skipped. It cannot get stuck before: as
  long as a step is pending or in\_progress, a step can start, finish or be skipped.
\<close>

theorem execution_terminates:
  "(\<forall>evs. evs \<noteq> [] \<longrightarrow> pick evs \<in> set evs) \<and> 0 < max_workers \<and>
   active_workflows engine incident_id = Some w \<and>
   distinct (map step_id w) \<and>
   (\<forall>s \<in> set w. set (prereq_list s) \<subseteq> step_id ` set w) \<and>
   acyclic (prereq_rel w) \<longrightarrow>
     (\<forall>fuel \<ge> 2 * length w.
        \<exists>engine'. run_workflow fuel pick dispatch max_workers now engine incident_id = Some engine' \<and>
          (\<forall>s \<in> set (workflow_of engine' incident_id).
             status s = COMPLETED \<or> status s = FAILED \<or> status s = SKIPPED) \<and>
          map step_id (workflow_of engine' incident_id) = map step_id w) \<and>
     (\<not> workflow_done engine incident_id \<longrightarrow>
        enabled_events max_workers dispatch engine incident_id \<noteq> [])"
proof (intro impI conjI allI)
  assume h: "(\<forall>evs. evs \<noteq> [] \<longrightarrow> pick evs \<in> set evs) \<and> 0 < max_workers \<and>
   active_workflows engine incident_id = Some w \<and>
   distinct (map step_id w) \<and>
   (\<forall>s \<in> set w. set (prereq_list s) \<subseteq> step_id ` set w) \<and>
   acyclic (prereq_rel w)"
  then have p: "\<forall>evs. evs \<noteq> [] \<longrightarrow> pick evs \<in> set evs" and mw: "0 < max_workers"
    and a: "active_workflows engine incident_id = Some w" and wf: "well_formed w"
    by (simp_all add: well_formed_def)
  {
    fix fuel assume "2 * length w \<le> fuel"
    with remaining_work_bound [of w] have "remaining_work w \<le> fuel" by simp
    from run_workflow_ends [OF p mw a wf this, of dispatch now] obtain engine' where
      r: "run_workflow fuel pick dispatch max_workers now engine incident_id = Some engine'"
      and dn: "workflow_done engine' incident_id"
      and ids: "map step_id (workflow_of engine' incident_id) = map step_id w"
      by blast
    have "status s = COMPLETED \<or> status s = FAILED \<or> status s = SKIPPED"
      if "s \<in> set (workflow_of engine' incident_id)" for s
      using dn that by (cases "status s") (auto simp: workflow_done_def list_all_iff)
    with r ids show "\<exists>engine'. run_workflow fuel pick dispatch max_workers now engine incident_id
          = Some engine' \<and>
          (\<forall>s \<in> set (workflow_of engine' incident_id).
             status s = COMPLETED \<or> status s = FAILED \<or> status s = SKIPPED) \<and>
          map step_id (workflow_of engine' incident_id) = map step_id w"
      by blast
  }
  {
    assume "\<not> workflow_done engine incident_id"
    from enabled_events_nonempty [OF wf a this mw]
    show "enabled_events max_workers dispatch engine incident_id \<noteq> []" .
  }
qed

lemma prereq_rel_rev: "prereq_rel (rev w) = prereq_rel w"
  by (simp add: prereq_rel_def)

lemma demo_well_formed: "well_formed demo_workflow"
proof -
  have g: "RansomwareWorkflow_generate_workflow ransomware_data = Inr demo_workflow"
    by (simp add: demo_workflow_def RansomwareWorkflow_generate_workflow_def get_subdict_def
          dict_get_def ransomware_data_def Let_def)
  from ransomware_topo [OF g] have "acyclic (prereq_rel demo_workflow)"
    by (simp add: topologically_ordered_acyclic)
  moreover have "list_all (\<lambda>s. list_all (\<lambda>p. p \<in> set (map step_id demo_workflow)) (prereq_list s))
      demo_workflow"
    by code_simp
  then have "\<forall>s \<in> set demo_workflow. set (prereq_list s) \<subseteq> step_id ` set demo_workflow"
    by (auto simp: list_all_iff)
  ultimately show ?thesis using demo_distinct by (simp add: well_formed_def)
qed

lemma reversed_well_formed: "well_formed reversed_steps"
proof -
  have "topologically_ordered (rev reversed_steps)" "distinct (map step_id (rev reversed_steps))"
    by (simp_all add: reversed_steps_def topologically_ordered_def new_step_def prereq_list_def)
  then have "acyclic (prereq_rel (rev reversed_steps))"
    by (rule topologically_ordered_acyclic)
  then have "acyclic (prereq_rel reversed_steps)" by (simp only: prereq_rel_rev)
  moreover have "distinct (map step_id reversed_steps)"
    by (simp add: reversed_steps_def new_step_def)
  moreover have "\<forall>s \<in> set reversed_steps. set (prereq_list s) \<subseteq> step_id ` set reversed_steps"
    by (simp add: reversed_steps_def new_step_def prereq_list_def)
  ultimately show ?thesis by (simp add: well_formed_def)
qed

lemma hd_picks: "\<forall>evs. evs \<noteq> [] \<longrightarrow> hd evs \<in> set evs"
  by simp

theorem execution_terminates_witness:
  "active_workflows demo_engine ''INC-001'' = Some demo_workflow \<and>
   well_formed demo_workflow \<and>
   run_workflow 16 hd failing_dispatch 5 1 demo_engine ''INC-001'' = Some demo_final \<and>
   list_all (\<lambda>s. status s = COMPLETED \<or> status s = FAILED \<or> status s = SKIPPED)
     (workflow_of demo_final ''INC-001'') \<and>
   map status (workflow_of demo_final ''INC-001'') =
     [FAILED, COMPLETED, COMPLETED, SKIPPED, SKIPPED, SKIPPED, COMPLETED, COMPLETED] \<and>
   active_workflows reversed_engine ''INC-REV'' = Some reversed_steps \<and>
   well_formed reversed_steps \<and>
   \<not> topologically_ordered reversed_steps \<and>
   run_workflow 6 hd (\<lambda>s. Success ''Success'') 1 1 reversed_engine ''INC-REV'' = Some reversed_final \<and>
   map status (workflow_of reversed_final ''INC-REV'') = [COMPLETED, COMPLETED, COMPLETED]"
proof -
  from demo_well_formed have dw: "distinct (map step_id demo_workflow)"
    "\<forall>s \<in> set demo_workflow. set (prereq_list s) \<subseteq> step_id ` set demo_workflow"
    "acyclic (prereq_rel demo_workflow)"
    by (simp_all add: well_formed_def)
  have l8: "length demo_workflow = 8" by code_simp
  have f16: "2 * length demo_workflow \<le> 16" unfolding l8 by simp
  have w5: "0 < (5::nat)" by simp
  from execution_terminates [of hd 5 demo_engine "''INC-001''" demo_workflow failing_dispatch 1]
       hd_picks w5 demo_active dw
  have "\<forall>fuel \<ge> 2 * length demo_workflow.
        \<exists>engine'. run_workflow fuel hd failing_dispatch 5 1 demo_engine ''INC-001'' = Some engine' \<and>
          (\<forall>s \<in> set (workflow_of engine' ''INC-001'').
             status s = COMPLETED \<or> status s = FAILED \<or> status s = SKIPPED) \<and>
          map step_id (workflow_of engine' ''INC-001'') = map step_id demo_workflow"
    by blast
  with f16
  have "\<exists>engine'. run_workflow 16 hd failing_dispatch 5 1 demo_engine ''INC-001'' = Some engine' \<and>
          (\<forall>s \<in> set (workflow_of engine' ''INC-001'').
             status s = COMPLETED \<or> status s = FAILED \<or> status s = SKIPPED)"
    by blast
  then have r1: "run_workflow 16 hd failing_dispatch 5 1 demo_engine ''INC-001'' = Some demo_final"
    and t1: "list_all (\<lambda>s. status s = COMPLETED \<or> status s = FAILED \<or> status s = SKIPPED)
     (workflow_of demo_final ''INC-001'')"
    by (auto simp: demo_final_def list_all_iff)
  have "map_option (\<lambda>e. map status (workflow_of e ''INC-001''))
     (run_workflow 16 hd failing_dispatch 5 1 demo_engine ''INC-001'') =
     Some [FAILED, COMPLETED, COMPLETED, SKIPPED, SKIPPED, SKIPPED, COMPLETED, COMPLETED]"
    by code_simp
  with r1 have s1: "map status (workflow_of demo_final ''INC-001'') =
     [FAILED, COMPLETED, COMPLETED, SKIPPED, SKIPPED, SKIPPED, COMPLETED, COMPLETED]"
    by simp
  have ra: "active_workflows reversed_engine ''INC-REV'' = Some reversed_steps"
    by (simp add: reversed_engine_def)
  from reversed_well_formed have rw: "distinct (map step_id reversed_steps)"
    "\<forall>s \<in> set reversed_steps. set (prereq_list s) \<subseteq> step_id ` set reversed_steps"
    "acyclic (prereq_rel reversed_steps)"
    by (simp_all add: well_formed_def)
  have l3: "length reversed_steps = 3" by (simp add: reversed_steps_def)
  have nt: "\<not> topologically_ordered reversed_steps"
    by (simp add: reversed_steps_def topologically_ordered_def new_step_def prereq_list_def)
  have f6: "2 * length reversed_steps \<le> 6" unfolding l3 by simp
  have w1: "0 < (1::nat)" by simp
  from execution_terminates
         [of hd 1 reversed_engine "''INC-REV''" reversed_steps "\<lambda>s. Success ''Success''" 1]
       hd_picks w1 ra rw
  have "\<forall>fuel \<ge> 2 * length reversed_steps.
        \<exists>engine'. run_workflow fuel hd (\<lambda>s. Success ''Success'') 1 1 reversed_engine ''INC-REV''
            = Some engine' \<and>
          (\<forall>s \<in> set (workflow_of engine' ''INC-REV'').
             status s = COMPLETED \<or> status s = FAILED \<or> status s = SKIPPED) \<and>
          map step_id (workflow_of engine' ''INC-REV'') = map step_id reversed_steps"
    by blast
  with f6
  have "\<exists>engine'. run_workflow 6 hd (\<lambda>s. Success ''Success'') 1 1 reversed_engine ''INC-REV''
          = Some engine'"
    by blast
  then have r2: "run_workflow 6 hd (\<lambda>s. Success ''Success'') 1 1 reversed_engine ''INC-REV''
      = Some reversed_final"
    by (auto simp: reversed_final_def)
  have "map_option (\<lambda>e. map status (workflow_of e ''INC-REV''))
     (run_workflow 6 hd (\<lambda>s. Success ''Success'') 1 1 reversed_engine ''INC-REV'') =
     Some [COMPLETED, COMPLETED, COMPLETED]"
    by code_simp
  with r2 have s2: "map status (workflow_of reversed_final ''INC-REV'') =
     [COMPLETED, COMPLETED, COMPLETED]"
    by simp
  show ?thesis
    by (intro conjI) (rule demo_active, rule demo_well_formed, rule r1, rule t1, rule s1,
      rule ra, rule reversed_well_formed, rule nt, rule r2, rule s2)
qed

end
